theory Spec2Isabelle
  imports Main
begin

section \<open>Python values\<close>

text \<open>
  The values that travel through \<open>main.py\<close> are what \<open>json.loads\<close> and
  \<open>response.json()\<close> produce: \<open>None\<close>, booleans, integers, strings, lists and
  dictionaries. A dictionary is the list of its items in insertion order (keys distinct).
  Fractional numbers are left out: like an integer they are neither a dictionary, a list
  nor a string, which is all this program asks of a number.
\<close>

datatype json =
    JNull
  | JBool bool
  | JNum int
  | JStr string
  | JArr "json list"
  | JObj "(string \<times> json) list"

datatype exn =
    RequestException
  | JSONDecodeError
  | AttributeError
  | KeyError
  | TypeError
  | ValueError
  | DecodeError
  | UnicodeEncodeError
  | FailedToCreateRepository int
  | FailedToEnablePages int
  | NoFilesPushed
  | NoFilesGenerated

text \<open>Python truthiness, as used by \<open>if x:\<close>, \<open>not x\<close> and \<open>a and b\<close>.\<close>

fun truthy :: "json \<Rightarrow> bool" where
  "truthy JNull = False"
| "truthy (JBool b) = b"
| "truthy (JNum n) = (n \<noteq> 0)"
| "truthy (JStr s) = (s \<noteq> [])"
| "truthy (JArr xs) = (xs \<noteq> [])"
| "truthy (JObj kvs) = (kvs \<noteq> [])"

text \<open>\<open>d.get(k, default)\<close> on a dictionary.\<close>

definition dict_get :: "(string \<times> json) list \<Rightarrow> string \<Rightarrow> json \<Rightarrow> json" where
  "dict_get d k dflt = (case map_of d k of None \<Rightarrow> dflt | Some v \<Rightarrow> v)"

text \<open>\<open>x.get(k, default)\<close> on any value: only a dictionary has the method.\<close>

fun py_get :: "json \<Rightarrow> string \<Rightarrow> json \<Rightarrow> exn + json" where
  "py_get (JObj d) k dflt = Inr (dict_get d k dflt)"
| "py_get _ k dflt = Inl AttributeError"

text \<open>\<open>x[k]\<close> with a string key.\<close>

fun py_index :: "json \<Rightarrow> string \<Rightarrow> exn + json" where
  "py_index (JObj d) k = (case map_of d k of None \<Rightarrow> Inl KeyError | Some v \<Rightarrow> Inr v)"
| "py_index _ k = Inl TypeError"

text \<open>\<open>for item in x\<close>: a list yields its elements, a dictionary its keys, a string its
  characters; nothing else can be iterated.\<close>

fun py_iter :: "json \<Rightarrow> exn + json list" where
  "py_iter (JArr xs) = Inr xs"
| "py_iter (JObj d) = Inr (map (\<lambda>kv. JStr (fst kv)) d)"
| "py_iter (JStr s) = Inr (map (\<lambda>c. JStr [c]) s)"
| "py_iter _ = Inl TypeError"

text \<open>\<open>s.endswith(ext)\<close>.\<close>

definition endswith :: "string \<Rightarrow> string \<Rightarrow> bool" where
  "endswith s ext = (length ext \<le> length s \<and> drop (length s - length ext) s = ext)"

section \<open>The outside world\<close>

text \<open>
  Every effect of the program is a call to a collaborator: the hosting platform and the
  evaluation callback through \<open>requests\<close>, the generative service through its client,
  and \<open>time.sleep\<close>. The collaborators are a parameter of the model: a state of any type
  \<open>'w\<close> and one transition function per kind of call. Each call and its outcome are
  appended to a trace, so that what the program did can be stated.

  The URL of a request is kept as its parts (which endpoint, which repository, which
  path), the commit message of a write as the three values it interpolates, and the
  generation prompt as the values it is formatted from.
\<close>

datatype action = Create | Update

record payload =
  message :: "int \<times> action \<times> json"
  content :: json
  sha :: "json option"

datatype http_call =
    PostUserRepos json
  | GetContents string json
  | PutContents string json payload
  | PostPages string json
  | PostCallback string json

text \<open>What \<open>requests\<close> gives back: an exception, or a response with its status code
  and what \<open>response.json()\<close> makes of its body (\<open>None\<close> when that raises).\<close>

datatype http_result = ConnectionError | Response int "json option"

datatype context_entry =
    ExistingHeader
  | ExistingFile json string
  | AttachmentsHeader
  | AttachmentEntry string string string

record prompt =
  p_task :: string
  p_round :: int
  p_brief :: string
  p_checks :: "string list"
  p_context :: "context_entry list"

text \<open>What the generative service gives back. \<open>NoClient\<close>: its client cannot be
  constructed (line 167 raises \<open>ValueError\<close>, before the \<open>try\<close>), and no call is made.
  Otherwise the call of line 205 is made and either raises, or gives a text with what
  \<open>json.loads\<close> makes of it (\<open>None\<close> when that raises).\<close>

datatype gen_result = NoClient | GenRaises | GenText "json option"

record 'w env =
  requests :: "'w \<Rightarrow> http_call \<Rightarrow> http_result \<times> 'w"
  generate_content :: "'w \<Rightarrow> prompt \<Rightarrow> gen_result \<times> 'w"
  sleep :: "'w \<Rightarrow> int \<Rightarrow> 'w"

datatype event =
    Requested http_call http_result
  | Generated prompt gen_result
  | Slept int

record 'w state =
  world :: 'w
  trace :: "event list"

definition request :: "'w env \<Rightarrow> http_call \<Rightarrow> 'w state \<Rightarrow> http_result \<times> 'w state" where
  "request e c s =
     (case requests e (world s) c of
        (r, w') \<Rightarrow> (r, \<lparr>world = w', trace = trace s @ [Requested c r]\<rparr>))"

definition generate :: "'w env \<Rightarrow> prompt \<Rightarrow> 'w state \<Rightarrow> gen_result \<times> 'w state" where
  "generate e p s =
     (case generate_content e (world s) p of
        (NoClient, w') \<Rightarrow> (NoClient, s)
      | (r, w') \<Rightarrow> (r, \<lparr>world = w', trace = trace s @ [Generated p r]\<rparr>))"

definition time_sleep :: "'w env \<Rightarrow> int \<Rightarrow> 'w state \<Rightarrow> 'w state" where
  "time_sleep e d s = \<lparr>world = sleep e (world s) d, trace = trace s @ [Slept d]\<rparr>"

text \<open>The two codecs of the \<open>base64\<close> library are parameters as well:
  \<open>b64encode c\<close> stands for \<open>base64.b64encode(c.encode('utf-8')).decode('utf-8')\<close> and
  \<open>b64decode c\<close> for \<open>base64.b64decode(c).decode('utf-8')\<close>, \<open>None\<close> when either step
  raises. A text that comes out of \<open>json.loads\<close> may hold a lone surrogate, on which
  \<open>c.encode('utf-8')\<close> raises \<open>UnicodeEncodeError\<close>: \<open>encodable c\<close> tells that it does
  not.\<close>

record codec =
  b64encode :: "string \<Rightarrow> string"
  b64decode :: "string \<Rightarrow> string option"
  encodable :: "string \<Rightarrow> bool"

section \<open>Request data\<close>

record attachment =
  att_name :: string
  att_url :: string

record task_request =
  email :: string
  secret :: string
  task :: string
  round :: int
  nonce :: string
  brief :: string
  checks :: "string list"
  evaluation_url :: string
  attachments :: "attachment list option"

definition OWNER :: string where
  "OWNER = ''24f2004631''"

definition GetRepoName :: "string \<Rightarrow> string \<Rightarrow> string" where
  "GetRepoName t n = t @ ''_'' @ n"

definition GetGithubPagesURL :: "string \<Rightarrow> string" where
  "GetGithubPagesURL repoName = ''https://'' @ OWNER @ ''.github.io/'' @ repoName @ ''/''"

section \<open>Hosting platform operations\<close>

definition CreateGithubRepo :: "'w env \<Rightarrow> string \<Rightarrow> 'w state \<Rightarrow> (exn + json) \<times> 'w state" where
  "CreateGithubRepo e repoName s =
     (case request e (PostUserRepos (JObj [(''name'', JStr repoName), (''private'', JBool False),
                        (''auto_init'', JBool True), (''license_template'', JStr ''mit'')])) s of
        (ConnectionError, s1) \<Rightarrow> (Inl RequestException, s1)
      | (Response st body, s1) \<Rightarrow>
          if st \<noteq> 201 \<and> st \<noteq> 422 then (Inl (FailedToCreateRepository st), s1)
          else (case body of
                  None \<Rightarrow> (Inl JSONDecodeError, s1)
                | Some b \<Rightarrow>
                    (py_get b ''html_url'' (JStr (''https://github.com/'' @ OWNER @ ''/'' @ repoName)), s1)))"

definition EnablePages :: "'w env \<Rightarrow> string \<Rightarrow> 'w state \<Rightarrow> (exn + unit) \<times> 'w state" where
  "EnablePages e repoName s =
     (case request e (PostPages repoName
                        (JObj [(''source'', JObj [(''branch'', JStr ''main''), (''path'', JStr ''/'')])])) s of
        (ConnectionError, s1) \<Rightarrow> (Inl RequestException, s1)
      | (Response st body, s1) \<Rightarrow>
          if st \<noteq> 201 \<and> st \<noteq> 409 then (Inl (FailedToEnablePages st), s1)
          else (Inr (), s1))"

definition GetFileSHA :: "'w env \<Rightarrow> string \<Rightarrow> json \<Rightarrow> 'w state \<Rightarrow> (exn + json) \<times> 'w state" where
  "GetFileSHA e repoName fileName s =
     (case request e (GetContents repoName fileName) s of
        (ConnectionError, s1) \<Rightarrow> (Inl RequestException, s1)
      | (Response st body, s1) \<Rightarrow>
          if st = 200 then
            (case body of
               None \<Rightarrow> (Inl JSONDecodeError, s1)
             | Some b \<Rightarrow> (py_get b ''sha'' JNull, s1))
          else (Inr JNull, s1))"

text \<open>The body of the loop of \<open>PushToRepo\<close> for a file that is not skipped: look the
  version tag up, write, and take the commit identifier of an accepted write.\<close>

definition push_file ::
  "'w env \<Rightarrow> string \<Rightarrow> int \<Rightarrow> json \<Rightarrow> json \<Rightarrow> json \<Rightarrow> 'w state \<Rightarrow> (exn + json) \<times> 'w state" where
  "push_file e repoName rnd fileName fileContent latestSHA s =
     (case GetFileSHA e repoName fileName s of
        (Inl x, s1) \<Rightarrow> (Inl x, s1)
      | (Inr fileSHA, s1) \<Rightarrow>
          (case request e (PutContents repoName fileName
                   \<lparr>message = (rnd, if truthy fileSHA then Update else Create, fileName),
                    content = fileContent,
                    sha = (if truthy fileSHA then Some fileSHA else None)\<rparr>) s1 of
             (ConnectionError, s2) \<Rightarrow> (Inl RequestException, s2)
           | (Response st body, s2) \<Rightarrow>
               (case body of
                  None \<Rightarrow> (Inl JSONDecodeError, s2)
                | Some b \<Rightarrow>
                    if st = 200 \<or> st = 201 then
                      (case py_get b ''commit'' (JObj []) of
                         Inl x \<Rightarrow> (Inl x, s2)
                       | Inr c \<Rightarrow> (py_get c ''sha'' latestSHA, s2))
                    else (Inr latestSHA, s2))))"

fun push_loop ::
  "'w env \<Rightarrow> string \<Rightarrow> int \<Rightarrow> (string \<times> json) list list \<Rightarrow> json \<Rightarrow> 'w state \<Rightarrow> (exn + json) \<times> 'w state" where
  "push_loop e repoName rnd [] latestSHA s = (Inr latestSHA, s)"
| "push_loop e repoName rnd (file # files) latestSHA s =
     (let fileName = dict_get file ''name'' JNull;
          fileContent = dict_get file ''content'' JNull
      in if \<not> truthy fileName \<or> \<not> truthy fileContent then push_loop e repoName rnd files latestSHA s
         else (case push_file e repoName rnd fileName fileContent latestSHA s of
                 (Inl x, s1) \<Rightarrow> (Inl x, s1)
               | (Inr latest', s1) \<Rightarrow> push_loop e repoName rnd files latest' s1))"

definition PushToRepo ::
  "'w env \<Rightarrow> string \<Rightarrow> int \<Rightarrow> (string \<times> json) list list \<Rightarrow> 'w state \<Rightarrow> (exn + json) \<times> 'w state" where
  "PushToRepo e repoName rnd files s =
     (case push_loop e repoName rnd files (JStr []) s of
        (Inl x, s1) \<Rightarrow> (Inl x, s1)
      | (Inr latestSHA, s1) \<Rightarrow>
          if \<not> truthy latestSHA then (Inl NoFilesPushed, s1) else (Inr latestSHA, s1))"

section \<open>Round context builder\<close>

definition GetFileContent ::
  "codec \<Rightarrow> 'w env \<Rightarrow> string \<Rightarrow> json \<Rightarrow> 'w state \<Rightarrow> (exn + string option) \<times> 'w state" where
  "GetFileContent lib e repoName fileName s =
     (case request e (GetContents repoName fileName) s of
        (ConnectionError, s1) \<Rightarrow> (Inl RequestException, s1)
      | (Response st body, s1) \<Rightarrow>
          if st = 200 then
            (case body of
               None \<Rightarrow> (Inl JSONDecodeError, s1)
             | Some b \<Rightarrow>
                 (case py_get b ''encoding'' JNull of
                    Inl x \<Rightarrow> (Inl x, s1)
                  | Inr enc \<Rightarrow>
                      if enc = JStr ''base64'' then
                        (case py_get b ''content'' (JStr []) of
                           Inl x \<Rightarrow> (Inl x, s1)
                         | Inr (JStr c) \<Rightarrow>
                             (case b64decode lib c of
                                None \<Rightarrow> (Inl DecodeError, s1)
                              | Some t \<Rightarrow> (Inr (Some t), s1))
                         | Inr _ \<Rightarrow> (Inl TypeError, s1))
                      else (Inr None, s1)))
          else (Inr None, s1))"

text \<open>The extension test of line 118: a suffix test against five letter sequences.\<close>

definition text_extensions :: "string list" where
  "text_extensions = [''html'', ''css'', ''js'', ''md'', ''json'']"

definition is_text_name :: "string \<Rightarrow> bool" where
  "is_text_name n = list_ex (\<lambda>ext. endswith n ext) text_extensions"

text \<open>Dictionary keys: lists and dictionaries cannot be keys, and \<open>True\<close>/\<open>False\<close> are
  the same keys as \<open>1\<close>/\<open>0\<close>. Assignment to a key that is present keeps its position and
  the key object first stored.\<close>

fun hashable :: "json \<Rightarrow> bool" where
  "hashable (JArr xs) = False"
| "hashable (JObj d) = False"
| "hashable _ = True"

fun key_norm :: "json \<Rightarrow> json" where
  "key_norm (JBool b) = JNum (if b then 1 else 0)"
| "key_norm j = j"

fun dict_set :: "(json \<times> string) list \<Rightarrow> json \<Rightarrow> string \<Rightarrow> (json \<times> string) list" where
  "dict_set [] k v = [(k, v)]"
| "dict_set ((k', v') # d) k v =
     (if key_norm k' = key_norm k then (k', v) # d else (k', v') # dict_set d k v)"

fun dict_lookup :: "(json \<times> string) list \<Rightarrow> json \<Rightarrow> string option" where
  "dict_lookup [] k = None"
| "dict_lookup ((k', v') # d) k = (if key_norm k' = key_norm k then Some v' else dict_lookup d k)"

text \<open>The body of the loop of \<open>GetExistingFiles\<close> (lines 118 to 122).\<close>

definition existing_item ::
  "codec \<Rightarrow> 'w env \<Rightarrow> string \<Rightarrow> json \<Rightarrow> (json \<times> string) list \<Rightarrow> 'w state
     \<Rightarrow> (exn + (json \<times> string) list) \<times> 'w state" where
  "existing_item lib e repoName item existingFiles s =
     (case py_index item ''type'' of
        Inl x \<Rightarrow> (Inl x, s)
      | Inr t \<Rightarrow>
          if t \<noteq> JStr ''file'' then (Inr existingFiles, s)
          else
            (case py_index item ''name'' of
               Inl x \<Rightarrow> (Inl x, s)
             | Inr (JStr n) \<Rightarrow>
                 if \<not> is_text_name n then (Inr existingFiles, s)
                 else
                   (case py_index item ''path'' of
                      Inl x \<Rightarrow> (Inl x, s)
                    | Inr path \<Rightarrow>
                        (case GetFileContent lib e repoName path s of
                           (Inl x, s1) \<Rightarrow> (Inl x, s1)
                         | (Inr None, s1) \<Rightarrow> (Inr existingFiles, s1)
                         | (Inr (Some fileContent), s1) \<Rightarrow>
                             if fileContent = [] then (Inr existingFiles, s1)
                             else if \<not> hashable path then (Inl TypeError, s1)
                             else (Inr (dict_set existingFiles path fileContent), s1)))
             | Inr _ \<Rightarrow> (Inl AttributeError, s)))"

fun existing_loop ::
  "codec \<Rightarrow> 'w env \<Rightarrow> string \<Rightarrow> json list \<Rightarrow> (json \<times> string) list \<Rightarrow> 'w state
     \<Rightarrow> (exn + (json \<times> string) list) \<times> 'w state" where
  "existing_loop lib e repoName [] existingFiles s = (Inr existingFiles, s)"
| "existing_loop lib e repoName (item # items) existingFiles s =
     (case existing_item lib e repoName item existingFiles s of
        (Inl x, s1) \<Rightarrow> (Inl x, s1)
      | (Inr existingFiles', s1) \<Rightarrow> existing_loop lib e repoName items existingFiles' s1)"

definition GetExistingFiles ::
  "codec \<Rightarrow> 'w env \<Rightarrow> string \<Rightarrow> 'w state \<Rightarrow> (exn + (json \<times> string) list) \<times> 'w state" where
  "GetExistingFiles lib e repoName s =
     (case request e (GetContents repoName (JStr [])) s of
        (ConnectionError, s1) \<Rightarrow> (Inl RequestException, s1)
      | (Response st body, s1) \<Rightarrow>
          if st = 200 then
            (case body of
               None \<Rightarrow> (Inl JSONDecodeError, s1)
             | Some contents \<Rightarrow>
                 (case py_iter contents of
                    Inl x \<Rightarrow> (Inl x, s1)
                  | Inr items \<Rightarrow> existing_loop lib e repoName items [] s1))
          else (Inr [], s1))"

section \<open>Generation adapter\<close>

text \<open>\<open>s.split(sep)\<close> for a separator that is not empty: cut at each occurrence, found
  from the left and not overlapping. The first argument after the separator holds the
  characters of the current piece, last first.\<close>

function split_acc :: "string \<Rightarrow> string \<Rightarrow> string \<Rightarrow> string list" where
  "split_acc sep cur [] = [rev cur]"
| "split_acc sep cur (c # cs) =
     (if sep \<noteq> [] \<and> take (length sep) (c # cs) = sep
      then rev cur # split_acc sep [] (drop (length sep) (c # cs))
      else split_acc sep (c # cur) cs)"
  by pat_completeness auto
termination
  by (relation "measure (\<lambda>(sep, cur, s). length s)") auto

definition py_split :: "string \<Rightarrow> string \<Rightarrow> string list" where
  "py_split s sep = split_acc sep [] s"

text \<open>The \<open>try\<close> block of lines 183 and 184: \<open>None\<close> when it raises (the split does not
  give exactly two pieces, or the payload does not decode).\<close>

definition decode_attachment :: "codec \<Rightarrow> attachment \<Rightarrow> string option" where
  "decode_attachment lib a =
     (case py_split (att_url a) '';base64,'' of
        [u, encodedData] \<Rightarrow> b64decode lib encodedData
      | _ \<Rightarrow> None)"

fun attachment_loop :: "codec \<Rightarrow> attachment list \<Rightarrow> context_entry list \<Rightarrow> context_entry list" where
  "attachment_loop lib [] contextSection = contextSection"
| "attachment_loop lib (a # as) contextSection =
     (case decode_attachment lib a of
        None \<Rightarrow> attachment_loop lib as contextSection
      | Some decodedContent \<Rightarrow>
          attachment_loop lib as
            (contextSection @
               [AttachmentEntry (att_name a) (takeWhile (\<lambda>c. c \<noteq> CHR '';'') (att_url a)) decodedContent]))"

definition build_context :: "codec \<Rightarrow> task_request \<Rightarrow> (json \<times> string) list \<Rightarrow> context_entry list" where
  "build_context lib requestData existingFiles =
     (let contextSection =
            (if existingFiles \<noteq> []
             then ExistingHeader # map (\<lambda>(fileName, c). ExistingFile fileName c) existingFiles
             else [])
      in case attachments requestData of
           None \<Rightarrow> contextSection
         | Some [] \<Rightarrow> contextSection
         | Some atts \<Rightarrow> attachment_loop lib atts (contextSection @ [AttachmentsHeader]))"

definition fullPrompt :: "codec \<Rightarrow> task_request \<Rightarrow> (json \<times> string) list \<Rightarrow> prompt" where
  "fullPrompt lib requestData existingFiles =
     \<lparr>p_task = task requestData, p_round = round requestData, p_brief = brief requestData,
      p_checks = checks requestData, p_context = build_context lib requestData existingFiles\<rparr>"

definition artifact :: "json \<Rightarrow> string \<Rightarrow> (string \<times> json) list" where
  "artifact n c = [(''name'', n), (''content'', JStr c)]"

definition error_artifact :: "codec \<Rightarrow> (string \<times> json) list" where
  "error_artifact lib =
     artifact (JStr ''error.html'')
       (b64encode lib ''<html><body><h1>Gemini code generation failed</h1></body></html>'')"

fun encode_loop ::
  "codec \<Rightarrow> json list \<Rightarrow> (string \<times> json) list list \<Rightarrow> exn + (string \<times> json) list list" where
  "encode_loop lib [] encoded_files = Inr encoded_files"
| "encode_loop lib (file # rest) encoded_files =
     (case py_get file ''name'' JNull of
        Inl x \<Rightarrow> Inl x
      | Inr n \<Rightarrow>
          (case py_get file ''content'' JNull of
             Inl x \<Rightarrow> Inl x
           | Inr c \<Rightarrow>
               if truthy n \<and> truthy c then
                 (case c of
                    JStr txt \<Rightarrow>
                      if encodable lib txt
                      then encode_loop lib rest (encoded_files @ [artifact n (b64encode lib txt)])
                      else Inl UnicodeEncodeError
                  | _ \<Rightarrow> Inl AttributeError)
               else encode_loop lib rest encoded_files))"

definition encode_files :: "codec \<Rightarrow> json \<Rightarrow> exn + (string \<times> json) list list" where
  "encode_files lib generated_files_data =
     (case generated_files_data of
        JArr files \<Rightarrow> encode_loop lib files []
      | _ \<Rightarrow> Inr [])"

definition has_name :: "string \<Rightarrow> (string \<times> json) list list \<Rightarrow> bool" where
  "has_name n files = list_ex (\<lambda>f. dict_get f ''name'' JNull = JStr n) files"

text \<open>Lines 239 to 244.\<close>

definition add_defaults ::
  "codec \<Rightarrow> task_request \<Rightarrow> (string \<times> json) list list \<Rightarrow> (string \<times> json) list list" where
  "add_defaults lib requestData encoded_files =
     (if round requestData = 1 \<and>
         \<not> list_ex (\<lambda>f. dict_get f ''name'' JNull = JStr ''LICENSE'' \<or>
                        dict_get f ''name'' JNull = JStr ''README.md'') encoded_files
      then
        (let files1 = (if \<not> has_name ''LICENSE'' encoded_files
                       then encoded_files @ [artifact (JStr ''LICENSE'') (b64encode lib ''MIT License...'')]
                       else encoded_files)
         in if \<not> has_name ''README.md'' files1
            then files1 @ [artifact (JStr ''README.md'')
                             (b64encode lib (''# Task '' @ task requestData @ [CHR 0x0A] @
                                             ''Brief: '' @ brief requestData))]
            else files1)
      else encoded_files)"

definition LLMCode ::
  "codec \<Rightarrow> 'w env \<Rightarrow> task_request \<Rightarrow> (json \<times> string) list \<Rightarrow> 'w state
     \<Rightarrow> (exn + (string \<times> json) list list) \<times> 'w state" where
  "LLMCode lib e requestData existingFiles s =
     (case generate e (fullPrompt lib requestData existingFiles) s of
        (NoClient, s1) \<Rightarrow> (Inl ValueError, s1)
      | (GenRaises, s1) \<Rightarrow> (Inr [error_artifact lib], s1)
      | (GenText None, s1) \<Rightarrow> (Inr [error_artifact lib], s1)
      | (GenText (Some generated_files_data), s1) \<Rightarrow>
          (case encode_files lib generated_files_data of
             Inl x \<Rightarrow> (Inl x, s1)
           | Inr encoded_files \<Rightarrow> (Inr (add_defaults lib requestData encoded_files), s1)))"

section \<open>Evaluation notifier\<close>

text \<open>The loop \<open>for attempt in range(maxRetries)\<close> of lines 267 to 281, from the
  iteration \<open>attempt\<close> on.\<close>

function notify_loop ::
  "'w env \<Rightarrow> string \<Rightarrow> json \<Rightarrow> int \<Rightarrow> int \<Rightarrow> int \<Rightarrow> 'w state \<Rightarrow> 'w state" where
  "notify_loop e url pl maxRetries attempt delay s =
     (if attempt < maxRetries then
        (case request e (PostCallback url pl) s of
           (r, s1) \<Rightarrow>
             if (case r of Response st body \<Rightarrow> st = 200 | ConnectionError \<Rightarrow> False) then s1
             else if attempt < maxRetries - 1
                  then notify_loop e url pl maxRetries (attempt + 1) (delay * 2) (time_sleep e delay s1)
                  else notify_loop e url pl maxRetries (attempt + 1) delay s1)
      else s)"
  by pat_completeness auto
termination
  by (relation "measure (\<lambda>(e, url, pl, maxRetries, attempt, delay, s). nat (maxRetries - attempt))") auto

declare notify_loop.simps [simp del]

definition evaluation_payload :: "task_request \<Rightarrow> json \<Rightarrow> json \<Rightarrow> string \<Rightarrow> json" where
  "evaluation_payload requestData repoURL commitSHA pagesURL =
     JObj [(''email'', JStr (email requestData)), (''task'', JStr (task requestData)),
           (''round'', JNum (round requestData)), (''nonce'', JStr (nonce requestData)),
           (''repo_url'', repoURL), (''commit_sha'', commitSHA), (''pages_url'', JStr pagesURL)]"

definition PostToEvaluationAPI ::
  "'w env \<Rightarrow> task_request \<Rightarrow> json \<Rightarrow> json \<Rightarrow> string \<Rightarrow> 'w state \<Rightarrow> 'w state" where
  "PostToEvaluationAPI e requestData repoURL commitSHA pagesURL s =
     notify_loop e (evaluation_url requestData)
       (evaluation_payload requestData repoURL commitSHA pagesURL) 5 0 1 s"

section \<open>Task orchestrator\<close>

text \<open>\<open>ProcessTaskInBackground\<close> returns nothing and catches every exception; the model
  returns the exception it caught and logged, if any, with the final state.\<close>

definition provision :: "'w env \<Rightarrow> task_request \<Rightarrow> string \<Rightarrow> 'w state \<Rightarrow> (exn + json) \<times> 'w state" where
  "provision e requestData repoName s =
     (if round requestData = 1 then CreateGithubRepo e repoName s
      else (Inr (JStr (''https://github.com/'' @ OWNER @ ''/'' @ repoName)), s))"

definition gather_context ::
  "codec \<Rightarrow> 'w env \<Rightarrow> task_request \<Rightarrow> string \<Rightarrow> 'w state \<Rightarrow> (exn + (json \<times> string) list) \<times> 'w state" where
  "gather_context lib e requestData repoName s =
     (if round requestData = 2 then GetExistingFiles lib e repoName s else (Inr [], s))"

definition publish_and_notify ::
  "'w env \<Rightarrow> task_request \<Rightarrow> string \<Rightarrow> json \<Rightarrow> json \<Rightarrow> 'w state \<Rightarrow> exn option \<times> 'w state" where
  "publish_and_notify e requestData repoName repoURL commitSHA s =
     (case EnablePages e repoName s of
        (Inl x, s1) \<Rightarrow> (Some x, s1)
      | (Inr u, s1) \<Rightarrow>
          (None, PostToEvaluationAPI e requestData repoURL commitSHA (GetGithubPagesURL repoName) s1))"

definition commit_files ::
  "'w env \<Rightarrow> task_request \<Rightarrow> string \<Rightarrow> json \<Rightarrow> (string \<times> json) list list \<Rightarrow> 'w state
     \<Rightarrow> exn option \<times> 'w state" where
  "commit_files e requestData repoName repoURL filesToCommit s =
     (if filesToCommit = [] then (Some NoFilesGenerated, s)
      else
        (case PushToRepo e repoName (round requestData) filesToCommit s of
           (Inl x, s1) \<Rightarrow> (Some x, s1)
         | (Inr commitSHA, s1) \<Rightarrow> publish_and_notify e requestData repoName repoURL commitSHA s1))"

definition ProcessTaskInBackground ::
  "codec \<Rightarrow> 'w env \<Rightarrow> task_request \<Rightarrow> 'w state \<Rightarrow> exn option \<times> 'w state" where
  "ProcessTaskInBackground lib e requestData s =
     (let repoName = GetRepoName (task requestData) (nonce requestData)
      in case provision e requestData repoName s of
           (Inl x, s1) \<Rightarrow> (Some x, s1)
         | (Inr repoURL, s1) \<Rightarrow>
             (case gather_context lib e requestData repoName s1 of
                (Inl x, s2) \<Rightarrow> (Some x, s2)
              | (Inr existingFiles, s2) \<Rightarrow>
                  (case LLMCode lib e requestData existingFiles s2 of
                     (Inl x, s3) \<Rightarrow> (Some x, s3)
                   | (Inr filesToCommit, s3) \<Rightarrow>
                       commit_files e requestData repoName repoURL filesToCommit s3)))"

section \<open>Reading the trace\<close>

text \<open>The events a run added to the trace.\<close>

definition new_events :: "'w state \<Rightarrow> 'w state \<Rightarrow> event list" where
  "new_events s s' = drop (length (trace s)) (trace s')"

text \<open>An accepted write: a write request answered with status 200 or 201.\<close>

fun accepted :: "event \<Rightarrow> bool" where
  "accepted (Requested (PutContents repo n p) (Response st body)) = (st = 200 \<or> st = 201)"
| "accepted _ = False"

text \<open>The commit identifier a response carries: the \<open>sha\<close> of its \<open>commit\<close> object.\<close>

fun commit_id :: "event \<Rightarrow> json option" where
  "commit_id (Requested c (Response st (Some (JObj d)))) =
     (case map_of d ''commit'' of Some (JObj c) \<Rightarrow> map_of c ''sha'' | _ \<Rightarrow> None)"
| "commit_id _ = None"

text \<open>The hosting platform keeps to its interface during a synchronization: every request
  gets a response, a file lookup that succeeds describes the file as an object, a write
  response has a JSON body, and an accepted write reports a commit identifier.\<close>

fun answers_well :: "event \<Rightarrow> bool" where
  "answers_well (Requested (GetContents repo n) (Response st body)) =
     (st = 200 \<longrightarrow> (case body of Some (JObj d) \<Rightarrow> True | _ \<Rightarrow> False))"
| "answers_well (Requested (PutContents repo n p) (Response st body)) =
     (body \<noteq> None \<and>
      (st = 200 \<or> st = 201 \<longrightarrow>
         (case commit_id (Requested (PutContents repo n p) (Response st body)) of
            Some v \<Rightarrow> truthy v | None \<Rightarrow> False)))"
| "answers_well _ = False"

text \<open>A notification attempt, a notification attempt answered with status 200, and the
  delays slept, in order.\<close>

fun is_notify :: "event \<Rightarrow> bool" where
  "is_notify (Requested (PostCallback url pl) r) = True"
| "is_notify _ = False"

fun notified_ok :: "event \<Rightarrow> bool" where
  "notified_ok (Requested (PostCallback url pl) (Response st body)) = (st = 200)"
| "notified_ok _ = False"

fun delays :: "event list \<Rightarrow> int list" where
  "delays [] = []"
| "delays (Slept d # evs) = d # delays evs"
| "delays (ev # evs) = delays evs"

text \<open>The kind of call an event records. A lookup of the empty path is the listing of the
  repository root.\<close>

datatype kind = KCreate | KListing | KLookup | KWrite | KPublish | KNotify | KGenerate | KSleep

fun kind_of :: "event \<Rightarrow> kind" where
  "kind_of (Requested (PostUserRepos pl) r) = KCreate"
| "kind_of (Requested (GetContents repo n) r) = (if n = JStr [] then KListing else KLookup)"
| "kind_of (Requested (PutContents repo n p) r) = KWrite"
| "kind_of (Requested (PostPages repo pl) r) = KPublish"
| "kind_of (Requested (PostCallback url pl) r) = KNotify"
| "kind_of (Generated p r) = KGenerate"
| "kind_of (Slept d) = KSleep"

text \<open>What a file lookup reports as the stored version tag of the file: the \<open>sha\<close>
  of the description when the status is 200, nothing otherwise. The write that has to
  follow the lookup: an update carrying the tag when there is one, a create without a tag
  when there is none.\<close>

fun stored_tag :: "http_result \<Rightarrow> json" where
  "stored_tag (Response st (Some (JObj d))) = (if st = 200 then dict_get d ''sha'' JNull else JNull)"
| "stored_tag _ = JNull"

definition write_after :: "int \<Rightarrow> json \<Rightarrow> json \<Rightarrow> http_result \<Rightarrow> payload" where
  "write_after rnd n c g =
     \<lparr>message = (rnd, if truthy (stored_tag g) then Update else Create, n),
      content = c,
      sha = (if truthy (stored_tag g) then Some (stored_tag g) else None)\<rparr>"

text \<open>A trace of lookups each followed by the write it calls for, on the same file of the
  same repository; only the last lookup may stand alone.\<close>

fun lookup_then_write :: "int \<Rightarrow> event list \<Rightarrow> bool" where
  "lookup_then_write rnd [] = True"
| "lookup_then_write rnd [Requested (GetContents repo n) g] = True"
| "lookup_then_write rnd (Requested (GetContents repo n) g # Requested (PutContents repo' n' p) r # evs) =
     (repo' = repo \<and> n' = n \<and> p = write_after rnd n (content p) g \<and> lookup_then_write rnd evs)"
| "lookup_then_write rnd evs = False"

text \<open>A trace that begins with a lookup and a write: the two requests and what follows.\<close>

fun leading_pair ::
  "event list \<Rightarrow> ((string \<times> json \<times> http_result) \<times> (string \<times> json \<times> payload) \<times> event list) option" where
  "leading_pair (Requested (GetContents r n) g # Requested (PutContents r' n' p) reply # rest) =
     Some ((r, n, g), (r', n', p), rest)"
| "leading_pair evs = None"

text \<open>The requests a batch calls for: for each file that has a name and a content, in the
  order of the batch, the lookup of the file followed by the write that the lookup calls
  for, with the content of the file; nothing for the other files.\<close>

fun batch_requests :: "int \<Rightarrow> string \<Rightarrow> (string \<times> json) list list \<Rightarrow> event list \<Rightarrow> bool" where
  "batch_requests rnd repo [] evs = (evs = [])"
| "batch_requests rnd repo (f # fs) evs =
     (if \<not> truthy (dict_get f ''name'' JNull) \<or> \<not> truthy (dict_get f ''content'' JNull)
      then batch_requests rnd repo fs evs
      else (case leading_pair evs of
              Some ((r, n, g), (r', n', p), rest) \<Rightarrow>
                r = repo \<and> n = dict_get f ''name'' JNull \<and> r' = repo \<and> n' = n \<and>
                p = write_after rnd n (dict_get f ''content'' JNull) g \<and>
                batch_requests rnd repo fs rest
            | None \<Rightarrow> False))"

text \<open>The file a write request is for.\<close>

fun written_name :: "event \<Rightarrow> json" where
  "written_name (Requested (PutContents repo n p) r) = n"
| "written_name _ = JNull"


text \<open>The text a fetch brings: the decoded content, when the answer has status 200 and is
  an object with base64 encoding whose content decodes; nothing otherwise.\<close>

fun fetched_text :: "codec \<Rightarrow> http_result \<Rightarrow> string option" where
  "fetched_text lib (Response st (Some (JObj d))) =
     (if st = 200 \<and> dict_get d ''encoding'' JNull = JStr ''base64''
      then (case dict_get d ''content'' (JStr []) of JStr c \<Rightarrow> b64decode lib c | _ \<Rightarrow> None)
      else None)"
| "fetched_text lib g = None"


text \<open>The context that a sequence of fetches makes: each fetch that brings a text that is
  not empty puts it under the path fetched.\<close>

fun context_of :: "codec \<Rightarrow> event list \<Rightarrow> (json \<times> string) list \<Rightarrow> (json \<times> string) list" where
  "context_of lib [] acc = acc"
| "context_of lib (Requested (GetContents repo pth) g # evs) acc =
     context_of lib evs
       (case fetched_text lib g of
          Some c \<Rightarrow> if c = [] then acc else dict_set acc pth c
        | None \<Rightarrow> acc)"
| "context_of lib (ev # evs) acc = context_of lib evs acc"

section \<open>Example collaborators\<close>

text \<open>A small world for concrete runs: the repository is empty, every write is answered
  with the given status, the generative service gives the given answer, and the
  evaluation callback answers 200 to the attempt of the given number and 500 to the
  others. Its state counts the callback attempts.\<close>

definition example_env :: "int \<Rightarrow> gen_result \<Rightarrow> nat \<Rightarrow> nat env" where
  "example_env put_status answer ok_at =
     \<lparr>requests = (\<lambda>w c. case c of
          PostUserRepos pl \<Rightarrow> (Response 201 (Some (JObj [(''html_url'', JStr ''https://example.org/repo'')])), w)
        | GetContents repo path \<Rightarrow> (Response 404 (Some (JObj [(''message'', JStr ''Not Found'')])), w)
        | PutContents repo path pl \<Rightarrow>
            (Response put_status (Some (JObj [(''commit'', JObj [(''sha'', JStr ''c0ffee'')])])), w)
        | PostPages repo pl \<Rightarrow> (Response 201 (Some (JObj [])), w)
        | PostCallback url pl \<Rightarrow> (Response (if Suc w = ok_at then 200 else 500) None, Suc w)),
      generate_content = (\<lambda>w p. (answer, w)),
      sleep = (\<lambda>w d. w)\<rparr>"

definition start :: "nat state" where
  "start = \<lparr>world = 0, trace = []\<rparr>"

text \<open>The same world, except that an accepted write reports a commit identifier only when
  the file is \<open>index.html\<close>.\<close>

definition terse_env :: "nat env" where
  "terse_env =
     (example_env 201 GenRaises 1)
       \<lparr>requests := (\<lambda>w c. case c of
            PutContents repo path pl \<Rightarrow>
              (Response 201
                 (Some (JObj (if path = JStr ''index.html''
                              then [(''commit'', JObj [(''sha'', JStr ''c0ffee'')])] else []))), w)
          | _ \<Rightarrow> requests (example_env 201 GenRaises 1) w c)\<rparr>"

definition demo_request :: "int \<Rightarrow> task_request" where
  "demo_request r =
     \<lparr>email = ''dev@example.org'', secret = ''s3cret'', task = ''demo'', round = r,
      nonce = ''n1'', brief = ''build a landing page'', checks = [''has title''],
      evaluation_url = ''https://example.org/notify'', attachments = None\<rparr>"

text \<open>A codec for concrete runs. It stands in for base64: encoding puts a marker in front
  of the text and decoding takes it off, failing when it is missing. Every text can be
  encoded.\<close>

definition example_codec :: codec where
  "example_codec =
     \<lparr>b64encode = (\<lambda>c. ''b64:'' @ c),
      b64decode = (\<lambda>c. if take 4 c = ''b64:'' then Some (drop 4 c) else None),
      encodable = (\<lambda>c. True)\<rparr>"

definition demo_attachments :: "attachment list" where
  "demo_attachments =
     [\<lparr>att_name = ''a.txt'', att_url = ''data:text/plain;base64,b64:hi''\<rparr>,
      \<lparr>att_name = ''b.txt'', att_url = ''data:text/plain,hello''\<rparr>,
      \<lparr>att_name = ''c.txt'', att_url = ''data:text/plain;base64,hello''\<rparr>]"

text \<open>
  Modelled from the spec: the hosting platform's content API, an external collaborator of
  which the repository holds no code (sections 4.5 and 6: a file lookup returns a version
  tag or "not found"; create-or-update accepts content and an optional version tag and
  returns a commit identifier; a missing, mismatched or stale version tag is rejected).
  The platform keeps, for each file name, its content and the number of the commit that
  wrote it; the version tag of a file and the identifier of a commit are made from such
  numbers. It also lists the repository root, creates repositories, enables pages, takes
  the evaluation callback, and plays the generative service with a fixed answer.
\<close>

record platform =
  stored :: "(json \<times> json \<times> nat) list"
  commits :: nat
  answer :: gen_result

definition version_tag :: "nat \<Rightarrow> json" where
  "version_tag v = JStr (CHR ''v'' # replicate v CHR ''+'')"

definition commit_tag :: "nat \<Rightarrow> json" where
  "commit_tag k = JStr (CHR ''c'' # replicate k CHR ''+'')"

fun put_file :: "json \<Rightarrow> json \<times> nat \<Rightarrow> (json \<times> json \<times> nat) list \<Rightarrow> (json \<times> json \<times> nat) list" where
  "put_file n x [] = [(n, x)]"
| "put_file n x ((m, y) # fs) = (if m = n then (n, x) # fs else (m, y) # put_file n x fs)"

definition accept_write :: "int \<Rightarrow> json \<Rightarrow> payload \<Rightarrow> platform \<Rightarrow> http_result \<times> platform" where
  "accept_write st n p w =
     (Response st (Some (JObj [(''commit'', JObj [(''sha'', commit_tag (commits w))])])),
      w\<lparr>stored := put_file n (content p, commits w) (stored w), commits := Suc (commits w)\<rparr>)"

definition hosting_platform :: "platform env" where
  "hosting_platform =
     \<lparr>requests = (\<lambda>w c. case c of
          PostUserRepos pl \<Rightarrow> (Response 201 (Some (JObj [(''html_url'', JStr ''https://example.org/repo'')])), w)
        | GetContents repo n \<Rightarrow>
            if n = JStr [] then
              (Response 200 (Some (JArr (map (\<lambda>f. JObj [(''type'', JStr ''file''), (''name'', fst f),
                                                         (''path'', fst f)]) (stored w)))), w)
            else
              (case map_of (stored w) n of
                 None \<Rightarrow> (Response 404 (Some (JObj [(''message'', JStr ''Not Found'')])), w)
               | Some (c, v) \<Rightarrow>
                   (Response 200 (Some (JObj [(''sha'', version_tag v), (''encoding'', JStr ''base64''),
                                              (''content'', c)])), w))
        | PutContents repo n p \<Rightarrow>
            (case map_of (stored w) n of
               None \<Rightarrow>
                 if sha p = None then accept_write 201 n p w
                 else (Response 422 (Some (JObj [(''message'', JStr ''sha was supplied'')])), w)
             | Some (c, v) \<Rightarrow>
                 if sha p = Some (version_tag v) then accept_write 200 n p w
                 else (Response 409 (Some (JObj [(''message'', JStr ''sha does not match'')])), w))
        | PostPages repo pl \<Rightarrow> (Response 201 (Some (JObj [])), w)
        | PostCallback url pl \<Rightarrow> (Response 200 None, w)),
      generate_content = (\<lambda>w p. (answer w, w)),
      sleep = (\<lambda>w d. w)\<rparr>"

text \<open>A platform that already holds \<open>index.html\<close>, written by commit 0, and a
  generative service that answers with a new version of that page.\<close>

definition demo_platform :: "platform state" where
  "demo_platform =
     \<lparr>world = \<lparr>stored = [(JStr ''index.html'', JStr ''b64:<h1>v1</h1>'', 0)], commits = 1,
               answer = GenText (Some (JArr [JObj [(''name'', JStr ''index.html''),
                                                   (''content'', JStr ''<h1>v2</h1>'')]]))\<rparr>,
      trace = []\<rparr>"



section \<open>Unfolding the definitions in concrete runs\<close>

lemmas run_defs = example_env_def start_def request_def generate_def time_sleep_def
  PushToRepo_def push_file_def GetFileSHA_def dict_get_def new_events_def Let_def

lemmas orchestrator_defs = ProcessTaskInBackground_def provision_def gather_context_def
  CreateGithubRepo_def GetExistingFiles_def LLMCode_def fullPrompt_def build_context_def
  encode_files_def add_defaults_def has_name_def commit_files_def PushToRepo_def push_file_def
  GetFileSHA_def publish_and_notify_def EnablePages_def PostToEvaluationAPI_def notify_loop.simps
  evaluation_payload_def GetRepoName_def GetGithubPagesURL_def OWNER_def error_artifact_def
  artifact_def example_codec_def example_env_def start_def demo_request_def request_def
  generate_def time_sleep_def dict_get_def new_events_def Let_def

lemmas platform_defs = hosting_platform_def accept_write_def version_tag_def commit_tag_def
  demo_platform_def existing_item_def GetFileContent_def is_text_name_def text_extensions_def
  endswith_def


section \<open>Facts about the synchronizer\<close>

lemma request_trace:
  "request e c s = (r, s') \<Longrightarrow> trace s' = trace s @ [Requested c r]"
  by (auto simp: request_def split: prod.splits)

lemma GetFileSHA_trace:
  assumes "GetFileSHA e repo n s = (res, s')"
  shows "\<exists>r. trace s' = trace s @ [Requested (GetContents repo n) r] \<and>
             (answers_well (Requested (GetContents repo n) r) \<longrightarrow> (\<exists>v. res = Inr v))"
  using assms
  by (auto simp: GetFileSHA_def dest!: request_trace
           split: prod.splits http_result.splits if_splits option.splits json.splits)

lemma push_file_trace:
  assumes "push_file e repo rnd n c latest s = (res, s')"
  shows "\<exists>new. trace s' = trace s @ new \<and>
           (\<forall>v. res = Inr v \<longrightarrow> filter accepted new = [] \<longrightarrow> v = latest) \<and>
           (list_all answers_well new \<longrightarrow>
              (filter accepted new = [] \<and> res = Inr latest) \<or>
              (\<exists>ev v. filter accepted new = [ev] \<and> commit_id ev = Some v \<and> truthy v \<and> res = Inr v))"
proof (cases "GetFileSHA e repo n s")
  case (Pair r1 s1)
  from GetFileSHA_trace [OF Pair] obtain g where
    g: "trace s1 = trace s @ [Requested (GetContents repo n) g]"
       "answers_well (Requested (GetContents repo n) g) \<longrightarrow> (\<exists>v. r1 = Inr v)" by blast
  show ?thesis
  proof (cases r1)
    case (Inl x)
    with Pair assms have "res = Inl x" "s' = s1" by (auto simp: push_file_def)
    with g Inl show ?thesis by auto
  next
    case (Inr fileSHA)
    let ?c = "PutContents repo n \<lparr>message = (rnd, if truthy fileSHA then Update else Create, n),
                    content = c, sha = (if truthy fileSHA then Some fileSHA else None)\<rparr>"
    obtain r2 s2 where put: "request e ?c s1 = (r2, s2)" by (cases "request e ?c s1")
    from request_trace [OF put] g
    have tr: "trace s2 = trace s @ [Requested (GetContents repo n) g, Requested ?c r2]" by simp
    from assms Pair Inr put have s': "s' = s2"
      by (auto simp: push_file_def split: http_result.splits option.splits sum.splits if_splits)
    from assms Pair Inr put
    have res: "res = (case r2 of ConnectionError \<Rightarrow> Inl RequestException
                    | Response st body \<Rightarrow> (case body of None \<Rightarrow> Inl JSONDecodeError
                        | Some b \<Rightarrow> if st = 200 \<or> st = 201 then
                             (case py_get b ''commit'' (JObj []) of Inl x \<Rightarrow> Inl x
                                | Inr cm \<Rightarrow> py_get cm ''sha'' latest)
                            else Inr latest))"
      by (auto simp: push_file_def split: http_result.splits option.splits sum.splits if_splits)
    show ?thesis
      apply (rule exI [of _ "[Requested (GetContents repo n) g, Requested ?c r2]"])
      apply (simp add: tr s' res)
      apply (cases r2)
       apply simp
      subgoal for st body
        apply (cases body)
         apply simp
        subgoal for b
          apply (cases b)
               apply (auto simp: dict_get_def split: option.splits json.splits)
          done
        done
      done
  qed
qed

lemma push_loop_trace:
  "push_loop e repo rnd files latest s = (res, s') \<Longrightarrow>
   \<exists>new. trace s' = trace s @ new \<and>
     (\<forall>v. res = Inr v \<longrightarrow> filter accepted new = [] \<longrightarrow> v = latest) \<and>
     (list_all answers_well new \<longrightarrow>
        (filter accepted new = [] \<and> res = Inr latest) \<or>
        (filter accepted new \<noteq> [] \<and>
           (\<exists>v. commit_id (last (filter accepted new)) = Some v \<and> truthy v \<and> res = Inr v)))"
proof (induction files arbitrary: latest s)
  case Nil
  then show ?case by (intro exI [of _ "[]"]) auto
next
  case (Cons f files)
  let ?n = "dict_get f ''name'' JNull" and ?c = "dict_get f ''content'' JNull"
  show ?case
  proof (cases "\<not> truthy ?n \<or> \<not> truthy ?c")
    case True
    with Cons.prems have "push_loop e repo rnd files latest s = (res, s')"
      by (auto simp: Let_def)
    from Cons.IH [OF this] show ?thesis .
  next
    case False
    obtain r1 s1 where pf: "push_file e repo rnd ?n ?c latest s = (r1, s1)"
      by (cases "push_file e repo rnd ?n ?c latest s")
    from push_file_trace [OF pf] obtain new1 where
      n1: "trace s1 = trace s @ new1"
          "\<forall>v. r1 = Inr v \<longrightarrow> filter accepted new1 = [] \<longrightarrow> v = latest"
          "list_all answers_well new1 \<longrightarrow>
             (filter accepted new1 = [] \<and> r1 = Inr latest) \<or>
             (\<exists>ev v. filter accepted new1 = [ev] \<and> commit_id ev = Some v \<and> truthy v \<and> r1 = Inr v)"
      by blast
    show ?thesis
    proof (cases r1)
      case (Inl x)
      with False pf Cons.prems have "res = Inl x" "s' = s1" by (auto simp: Let_def)
      with n1 Inl show ?thesis by (intro exI [of _ new1]) auto
    next
      case (Inr l1)
      with False pf Cons.prems have "push_loop e repo rnd files l1 s1 = (res, s')"
        by (auto simp: Let_def)
      from Cons.IH [OF this] obtain new2 where
        n2: "trace s' = trace s1 @ new2"
            "\<forall>v. res = Inr v \<longrightarrow> filter accepted new2 = [] \<longrightarrow> v = l1"
            "list_all answers_well new2 \<longrightarrow>
               (filter accepted new2 = [] \<and> res = Inr l1) \<or>
               (filter accepted new2 \<noteq> [] \<and>
                  (\<exists>v. commit_id (last (filter accepted new2)) = Some v \<and> truthy v \<and> res = Inr v))"
        by blast
      show ?thesis
      proof (intro exI [of _ "new1 @ new2"] conjI allI impI)
        show "trace s' = trace s @ new1 @ new2" using n1(1) n2(1) by simp
      next
        fix v assume "res = Inr v" "filter accepted (new1 @ new2) = []"
        with n1(2) n2(2) Inr show "v = latest" by auto
      next
        assume "list_all answers_well (new1 @ new2)"
        then have w: "list_all answers_well new1" "list_all answers_well new2" by auto
        from n1(3) w(1) Inr consider
            (none) "filter accepted new1 = []" "l1 = latest"
          | (one) ev v where "filter accepted new1 = [ev]" "commit_id ev = Some v" "truthy v" "l1 = v"
          by auto
        then show "(filter accepted (new1 @ new2) = [] \<and> res = Inr latest) \<or>
            (filter accepted (new1 @ new2) \<noteq> [] \<and>
               (\<exists>v. commit_id (last (filter accepted (new1 @ new2))) = Some v \<and> truthy v \<and> res = Inr v))"
        proof cases
          case none
          with n2(3) w(2) show ?thesis by auto
        next
          case one
          with n2(3) w(2) show ?thesis by auto
        qed
      qed
    qed
  qed
qed

lemma push_loop_append:
  "push_loop e repo rnd (xs @ ys) latest s =
     (case push_loop e repo rnd xs latest s of
        (Inl x, s1) \<Rightarrow> (Inl x, s1)
      | (Inr l, s1) \<Rightarrow> push_loop e repo rnd ys l s1)"
  by (induction xs arbitrary: latest s) (auto simp: Let_def split: prod.splits sum.splits)

lemma push_loop_skip:
  "dict_get f ''name'' JNull = JStr [] \<or> dict_get f ''content'' JNull = JStr [] \<Longrightarrow>
   push_loop e repo rnd (f # ys) latest s = push_loop e repo rnd ys latest s"
  by (auto simp: Let_def)

lemma push_loop_all_skipped:
  "\<forall>f\<in>set files. dict_get f ''name'' JNull = JStr [] \<or> dict_get f ''content'' JNull = JStr [] \<Longrightarrow>
   push_loop e repo rnd files latest s = (Inr latest, s)"
  by (induction files) (auto simp: Let_def)

text \<open>
  Claim C9. A file artifact whose name or content is the empty string is skipped by
  \<open>PushToRepo\<close>: the run, its result and its requests are those of the batch without
  the file. A batch of such files only makes no request and raises
  \<open>No files were pushed successfully\<close>.
\<close>

theorem PushToRepo_skips_empty:
  "(dict_get f ''name'' JNull = JStr [] \<or> dict_get f ''content'' JNull = JStr [] \<longrightarrow>
      PushToRepo e repo rnd (xs @ f # ys) s = PushToRepo e repo rnd (xs @ ys) s) \<and>
   ((\<forall>f\<in>set files. dict_get f ''name'' JNull = JStr [] \<or> dict_get f ''content'' JNull = JStr []) \<longrightarrow>
      PushToRepo e repo rnd files s = (Inl NoFilesPushed, s))"
proof (intro conjI impI)
  assume f: "dict_get f ''name'' JNull = JStr [] \<or> dict_get f ''content'' JNull = JStr []"
  have "push_loop e repo rnd (xs @ f # ys) (JStr []) s = push_loop e repo rnd (xs @ ys) (JStr []) s"
    by (simp only: push_loop_append push_loop_skip [OF f])
  then show "PushToRepo e repo rnd (xs @ f # ys) s = PushToRepo e repo rnd (xs @ ys) s"
    by (simp only: PushToRepo_def)
next
  assume "\<forall>f\<in>set files. dict_get f ''name'' JNull = JStr [] \<or> dict_get f ''content'' JNull = JStr []"
  then show "PushToRepo e repo rnd files s = (Inl NoFilesPushed, s)"
    by (simp add: PushToRepo_def push_loop_all_skipped)
qed

text \<open>A batch of three with an empty name in the middle, and a batch of two empty files.\<close>

theorem PushToRepo_skips_empty_witness:
  "PushToRepo (example_env 201 GenRaises 1) ''demo_n1'' 1
      ([[(''name'', JStr ''a.html''), (''content'', JStr ''YQ=='')]] @
       [(''name'', JStr []), (''content'', JStr ''Yg=='')] #
       [[(''name'', JStr ''c.html''), (''content'', JStr ''Yw=='')]]) start =
   PushToRepo (example_env 201 GenRaises 1) ''demo_n1'' 1
      ([[(''name'', JStr ''a.html''), (''content'', JStr ''YQ=='')]] @
       [[(''name'', JStr ''c.html''), (''content'', JStr ''Yw=='')]]) start \<and>
   PushToRepo (example_env 201 GenRaises 1) ''demo_n1'' 1
      [[(''name'', JStr []), (''content'', JStr ''Yg=='')],
       [(''name'', JStr ''d.css''), (''content'', JStr [])]] start = (Inl NoFilesPushed, start)"
proof -
  let ?f = "[(''name'', JStr []), (''content'', JStr ''Yg=='')]"
  let ?g = "[(''name'', JStr ''d.css''), (''content'', JStr [])]"
  have f: "dict_get ?f ''name'' JNull = JStr [] \<or> dict_get ?f ''content'' JNull = JStr []"
    by (simp add: dict_get_def)
  have fg: "\<forall>f\<in>set [?f, ?g]. dict_get f ''name'' JNull = JStr [] \<or> dict_get f ''content'' JNull = JStr []"
    by (simp add: dict_get_def)
  from PushToRepo_skips_empty [where f = ?f, THEN conjunct1, THEN mp, OF f]
       PushToRepo_skips_empty [where files = "[?f, ?g]", THEN conjunct2, THEN mp, OF fg]
  show ?thesis by blast
qed

lemma stored_tag_other:
  "st \<noteq> 200 \<Longrightarrow> stored_tag (Response st body) = JNull"
  by (cases "Response st body" rule: stored_tag.cases) auto

lemma GetFileSHA_shape:
  assumes "GetFileSHA e repo n s = (res, s1)"
  shows "\<exists>g. trace s1 = trace s @ [Requested (GetContents repo n) g] \<and>
             (if answers_well (Requested (GetContents repo n) g) then res = Inr (stored_tag g)
              else \<exists>x. res = Inl x)"
proof -
  obtain g s0 where rq: "request e (GetContents repo n) s = (g, s0)"
    by (cases "request e (GetContents repo n) s")
  from assms rq have s1: "s1 = s0"
    by (auto simp: GetFileSHA_def split: http_result.splits if_splits option.splits)
  have "if answers_well (Requested (GetContents repo n) g) then res = Inr (stored_tag g)
        else \<exists>x. res = Inl x"
  proof (cases g)
    case ConnectionError
    with assms rq show ?thesis by (auto simp: GetFileSHA_def)
  next
    case (Response st body)
    show ?thesis
    proof (cases "st = 200")
      case False
      with assms rq Response show ?thesis
        by (auto simp: GetFileSHA_def stored_tag_other)
    next
      case True
      with assms rq Response show ?thesis
        by (cases body) (auto simp: GetFileSHA_def split: json.splits)
    qed
  qed
  with request_trace [OF rq] s1 show ?thesis by blast
qed

lemma push_file_shape:
  assumes "push_file e repo rnd n c latest s = (res, s1)"
  shows "\<exists>g. (\<not> answers_well (Requested (GetContents repo n) g) \<and> (\<exists>x. res = Inl x) \<and>
               trace s1 = trace s @ [Requested (GetContents repo n) g]) \<or>
              (answers_well (Requested (GetContents repo n) g) \<and>
               (\<exists>reply. trace s1 = trace s @ [Requested (GetContents repo n) g,
                    Requested (PutContents repo n (write_after rnd n c g)) reply]))"
proof (cases "GetFileSHA e repo n s")
  case (Pair r0 s0)
  from GetFileSHA_shape [OF Pair] obtain g where
    g: "trace s0 = trace s @ [Requested (GetContents repo n) g]"
       "if answers_well (Requested (GetContents repo n) g) then r0 = Inr (stored_tag g)
        else \<exists>x. r0 = Inl x" by blast
  show ?thesis
  proof (cases "answers_well (Requested (GetContents repo n) g)")
    case False
    with g(2) obtain x where "r0 = Inl x" by auto
    with assms Pair have "res = Inl x" "s1 = s0" by (auto simp: push_file_def)
    with g(1) False show ?thesis by blast
  next
    case True
    with g(2) have r0: "r0 = Inr (stored_tag g)" by simp
    obtain reply s2 where put: "request e (PutContents repo n (write_after rnd n c g)) s0 = (reply, s2)"
      by (cases "request e (PutContents repo n (write_after rnd n c g)) s0")
    from assms Pair r0 put have "s1 = s2"
      by (auto simp: push_file_def write_after_def
               split: http_result.splits option.splits sum.splits if_splits)
    with request_trace [OF put] g(1) True show ?thesis by auto
  qed
qed

lemma truthy_not_empty: "truthy n \<Longrightarrow> n \<noteq> JStr []"
  by auto

lemma push_loop_shape:
  "push_loop e repo rnd files latest s = (res, s1) \<Longrightarrow>
   \<exists>C. trace s1 = trace s @ C \<and> kind_of ` set C \<subseteq> {KLookup, KWrite} \<and> lookup_then_write rnd C \<and>
       ((\<exists>v. res = Inr v) \<longrightarrow> even (length C))"
proof (induction files arbitrary: latest s)
  case Nil
  then show ?case by (intro exI [of _ "[]"]) auto
next
  case (Cons f files)
  let ?n = "dict_get f ''name'' JNull" and ?c = "dict_get f ''content'' JNull"
  show ?case
  proof (cases "\<not> truthy ?n \<or> \<not> truthy ?c")
    case True
    with Cons.prems have "push_loop e repo rnd files latest s = (res, s1)"
      by (auto simp: Let_def)
    from Cons.IH [OF this] show ?thesis .
  next
    case False
    then have ne: "?n \<noteq> JStr []" by (auto dest: truthy_not_empty)
    obtain r0 s0 where pf: "push_file e repo rnd ?n ?c latest s = (r0, s0)"
      by (cases "push_file e repo rnd ?n ?c latest s")
    from push_file_shape [OF pf] obtain g where
      g: "(\<not> answers_well (Requested (GetContents repo ?n) g) \<and> (\<exists>x. r0 = Inl x) \<and>
               trace s0 = trace s @ [Requested (GetContents repo ?n) g]) \<or>
              (answers_well (Requested (GetContents repo ?n) g) \<and>
               (\<exists>reply. trace s0 = trace s @ [Requested (GetContents repo ?n) g,
                    Requested (PutContents repo ?n (write_after rnd ?n ?c g)) reply]))" by blast
    show ?thesis
    proof (cases r0)
      case (Inl x)
      with False pf Cons.prems have rs: "res = Inl x" "s1 = s0" by (auto simp: Let_def)
      from g show ?thesis
      proof
        assume "\<not> answers_well (Requested (GetContents repo ?n) g) \<and> (\<exists>x. r0 = Inl x) \<and>
               trace s0 = trace s @ [Requested (GetContents repo ?n) g]"
        with rs ne show ?thesis
          by (intro exI [of _ "[Requested (GetContents repo ?n) g]"]) simp
      next
        assume "answers_well (Requested (GetContents repo ?n) g) \<and>
               (\<exists>reply. trace s0 = trace s @ [Requested (GetContents repo ?n) g,
                    Requested (PutContents repo ?n (write_after rnd ?n ?c g)) reply])"
        then obtain reply where "trace s0 = trace s @ [Requested (GetContents repo ?n) g,
                    Requested (PutContents repo ?n (write_after rnd ?n ?c g)) reply]" by blast
        with rs ne show ?thesis
          by (intro exI [of _ "[Requested (GetContents repo ?n) g,
                    Requested (PutContents repo ?n (write_after rnd ?n ?c g)) reply]"])
             (simp add: write_after_def)
      qed
    next
      case (Inr l1)
      with g obtain reply where t0: "trace s0 = trace s @ [Requested (GetContents repo ?n) g,
                    Requested (PutContents repo ?n (write_after rnd ?n ?c g)) reply]" by auto
      from Inr False pf Cons.prems have "push_loop e repo rnd files l1 s0 = (res, s1)"
        by (auto simp: Let_def)
      from Cons.IH [OF this] obtain C where
        c: "trace s1 = trace s0 @ C" "kind_of ` set C \<subseteq> {KLookup, KWrite}"
           "lookup_then_write rnd C" "(\<exists>v. res = Inr v) \<longrightarrow> even (length C)" by blast
      with t0 ne show ?thesis
        by (intro exI [of _ "[Requested (GetContents repo ?n) g,
                    Requested (PutContents repo ?n (write_after rnd ?n ?c g)) reply] @ C"])
           (simp add: write_after_def)
    qed
  qed
qed



lemma PushToRepo_shape:
  assumes "PushToRepo e repo rnd files s = (res, s')"
  shows "\<exists>C. trace s' = trace s @ C \<and> kind_of ` set C \<subseteq> {KLookup, KWrite} \<and>
             lookup_then_write rnd C \<and> ((\<exists>v. res = Inr v) \<longrightarrow> filter accepted C \<noteq> [])"
proof -
  obtain r1 s1 where pl: "push_loop e repo rnd files (JStr []) s = (r1, s1)"
    by (cases "push_loop e repo rnd files (JStr []) s")
  from assms pl have s': "s' = s1"
    by (auto simp: PushToRepo_def split: sum.splits if_splits)
  from assms pl have res: "\<And>v. res = Inr v \<Longrightarrow> r1 = Inr v \<and> truthy v"
    by (auto simp: PushToRepo_def split: sum.splits if_splits)
  from push_loop_shape [OF pl] obtain C where
    c: "trace s1 = trace s @ C" "kind_of ` set C \<subseteq> {KLookup, KWrite}" "lookup_then_write rnd C"
    by blast
  from push_loop_trace [OF pl] obtain new where
    n: "trace s1 = trace s @ new"
       "\<forall>v. r1 = Inr v \<longrightarrow> filter accepted new = [] \<longrightarrow> v = JStr []" by blast
  from c(1) n(1) have "new = C" by simp
  with n(2) res have "(\<exists>v. res = Inr v) \<longrightarrow> filter accepted C \<noteq> []" by fastforce
  with c s' show ?thesis by blast
qed

lemma batch_requests_skip:
  "\<not> truthy (dict_get f ''name'' JNull) \<or> \<not> truthy (dict_get f ''content'' JNull) \<Longrightarrow>
   batch_requests rnd repo (f # fs) evs = batch_requests rnd repo fs evs"
  by simp

lemma batch_requests_pair:
  "truthy (dict_get f ''name'' JNull) \<Longrightarrow> truthy (dict_get f ''content'' JNull) \<Longrightarrow>
   batch_requests rnd repo (f # fs)
     (Requested (GetContents repo (dict_get f ''name'' JNull)) g #
      Requested (PutContents repo (dict_get f ''name'' JNull)
        (write_after rnd (dict_get f ''name'' JNull) (dict_get f ''content'' JNull) g)) reply # rest) =
   batch_requests rnd repo fs rest"
  by simp

lemma batch_requests_exist: "\<exists>evs. batch_requests rnd repo fs evs"
proof (induction fs)
  case Nil
  show ?case by simp
next
  case (Cons f fs)
  then obtain evs where evs: "batch_requests rnd repo fs evs" ..
  show ?case
  proof (cases "\<not> truthy (dict_get f ''name'' JNull) \<or> \<not> truthy (dict_get f ''content'' JNull)")
    case True
    with evs show ?thesis by (intro exI [of _ evs]) (simp only: batch_requests_skip)
  next
    case False
    then have t: "truthy (dict_get f ''name'' JNull)" "truthy (dict_get f ''content'' JNull)"
      by simp_all
    from evs show ?thesis
      by (intro exI [of _ "Requested (GetContents repo (dict_get f ''name'' JNull)) ConnectionError #
            Requested (PutContents repo (dict_get f ''name'' JNull)
              (write_after rnd (dict_get f ''name'' JNull) (dict_get f ''content'' JNull) ConnectionError))
              ConnectionError # evs"])
         (simp only: batch_requests_pair [OF t])
  qed
qed

lemma batch_requests_cons:
  assumes "truthy (dict_get f ''name'' JNull)" and "truthy (dict_get f ''content'' JNull)"
    and "batch_requests rnd repo (f # fs) evs"
  shows "\<exists>g reply rest.
           evs = Requested (GetContents repo (dict_get f ''name'' JNull)) g #
                 Requested (PutContents repo (dict_get f ''name'' JNull)
                   (write_after rnd (dict_get f ''name'' JNull) (dict_get f ''content'' JNull) g)) reply #
                 rest \<and>
           batch_requests rnd repo fs rest"
  using assms by (cases evs rule: leading_pair.cases) auto

lemma batch_requests_writes:
  "batch_requests rnd repo files evs \<Longrightarrow>
   map written_name (filter (\<lambda>ev. kind_of ev = KWrite) evs) =
     map (\<lambda>f. dict_get f ''name'' JNull)
       (filter (\<lambda>f. truthy (dict_get f ''name'' JNull) \<and> truthy (dict_get f ''content'' JNull)) files)"
proof (induction files arbitrary: evs)
  case Nil
  then show ?case by simp
next
  case (Cons f fs)
  show ?case
  proof (cases "\<not> truthy (dict_get f ''name'' JNull) \<or> \<not> truthy (dict_get f ''content'' JNull)")
    case True
    with Cons.prems have "batch_requests rnd repo fs evs" by (simp only: batch_requests_skip)
    from Cons.IH [OF this] True show ?thesis by auto
  next
    case False
    then have t: "truthy (dict_get f ''name'' JNull)" "truthy (dict_get f ''content'' JNull)"
      by simp_all
    from batch_requests_cons [OF t Cons.prems] obtain g reply rest where
      evs: "evs = Requested (GetContents repo (dict_get f ''name'' JNull)) g #
                 Requested (PutContents repo (dict_get f ''name'' JNull)
                   (write_after rnd (dict_get f ''name'' JNull) (dict_get f ''content'' JNull) g)) reply #
                 rest"
      and rest: "batch_requests rnd repo fs rest" by blast
    from Cons.IH [OF rest] t show ?thesis unfolding evs by simp
  qed
qed

lemma push_loop_batch:
  "push_loop e repo rnd files latest s = (res, s1) \<Longrightarrow>
   \<exists>C rest. trace s1 = trace s @ C \<and> batch_requests rnd repo files (C @ rest) \<and>
            ((\<exists>v. res = Inr v) \<longrightarrow> rest = [])"
proof (induction files arbitrary: latest s)
  case Nil
  then show ?case by (intro exI [of _ "[]"]) auto
next
  case (Cons f files)
  let ?n = "dict_get f ''name'' JNull" and ?c = "dict_get f ''content'' JNull"
  show ?case
  proof (cases "\<not> truthy ?n \<or> \<not> truthy ?c")
    case True
    with Cons.prems have "push_loop e repo rnd files latest s = (res, s1)"
      by (auto simp: Let_def)
    from Cons.IH [OF this] show ?thesis by (simp only: batch_requests_skip [OF True])
  next
    case False
    then have t: "truthy ?n" "truthy ?c" by simp_all
    note pair = batch_requests_pair [OF t, of rnd repo files]
    obtain r0 s0 where pf: "push_file e repo rnd ?n ?c latest s = (r0, s0)"
      by (cases "push_file e repo rnd ?n ?c latest s")
    from push_file_shape [OF pf] obtain g where
      g: "(\<not> answers_well (Requested (GetContents repo ?n) g) \<and> (\<exists>x. r0 = Inl x) \<and>
               trace s0 = trace s @ [Requested (GetContents repo ?n) g]) \<or>
              (answers_well (Requested (GetContents repo ?n) g) \<and>
               (\<exists>reply. trace s0 = trace s @ [Requested (GetContents repo ?n) g,
                    Requested (PutContents repo ?n (write_after rnd ?n ?c g)) reply]))" by blast
    from batch_requests_exist obtain evs where evs: "batch_requests rnd repo files evs" ..
    show ?thesis
    proof (cases r0)
      case (Inl x)
      with False pf Cons.prems have rs: "res = Inl x" "s1 = s0" by (auto simp: Let_def)
      from g show ?thesis
      proof
        assume "\<not> answers_well (Requested (GetContents repo ?n) g) \<and> (\<exists>x. r0 = Inl x) \<and>
               trace s0 = trace s @ [Requested (GetContents repo ?n) g]"
        then have t0: "trace s1 = trace s @ [Requested (GetContents repo ?n) g]" using rs by simp
        have "batch_requests rnd repo (f # files)
                ([Requested (GetContents repo ?n) g] @
                 Requested (PutContents repo ?n (write_after rnd ?n ?c g)) ConnectionError # evs)"
          using evs by (simp only: append.simps pair)
        with t0 rs show ?thesis by blast
      next
        assume "answers_well (Requested (GetContents repo ?n) g) \<and>
               (\<exists>reply. trace s0 = trace s @ [Requested (GetContents repo ?n) g,
                    Requested (PutContents repo ?n (write_after rnd ?n ?c g)) reply])"
        then obtain reply where t0: "trace s1 = trace s @ [Requested (GetContents repo ?n) g,
                    Requested (PutContents repo ?n (write_after rnd ?n ?c g)) reply]"
          using rs by blast
        have "batch_requests rnd repo (f # files)
                ([Requested (GetContents repo ?n) g,
                  Requested (PutContents repo ?n (write_after rnd ?n ?c g)) reply] @ evs)"
          using evs by (simp only: append.simps pair)
        with t0 rs show ?thesis by blast
      qed
    next
      case (Inr l1)
      with g obtain reply where t0: "trace s0 = trace s @ [Requested (GetContents repo ?n) g,
                    Requested (PutContents repo ?n (write_after rnd ?n ?c g)) reply]" by auto
      from Inr False pf Cons.prems have "push_loop e repo rnd files l1 s0 = (res, s1)"
        by (auto simp: Let_def)
      from Cons.IH [OF this] obtain C rest where
        c: "trace s1 = trace s0 @ C" "batch_requests rnd repo files (C @ rest)"
           "(\<exists>v. res = Inr v) \<longrightarrow> rest = []" by blast
      have "batch_requests rnd repo (f # files)
              (([Requested (GetContents repo ?n) g,
                 Requested (PutContents repo ?n (write_after rnd ?n ?c g)) reply] @ C) @ rest)"
        using c(2) by (simp only: append.simps append_assoc pair)
      moreover from c(1) t0
      have "trace s1 = trace s @ ([Requested (GetContents repo ?n) g,
                 Requested (PutContents repo ?n (write_after rnd ?n ?c g)) reply] @ C)" by simp
      ultimately show ?thesis using c(3) by blast
    qed
  qed
qed

lemma py_get_exn: "py_get b k d = Inl x \<Longrightarrow> x = AttributeError"
  by (cases b) auto

lemma push_file_exn:
  "push_file e repo rnd n c latest s = (Inl x, s1) \<Longrightarrow> x \<noteq> NoFilesPushed"
  by (auto simp: push_file_def GetFileSHA_def
           split: prod.splits http_result.splits option.splits sum.splits if_splits
           dest: py_get_exn)

lemma push_loop_exn:
  "push_loop e repo rnd files latest s = (Inl x, s1) \<Longrightarrow> x \<noteq> NoFilesPushed"
proof (induction files arbitrary: latest s)
  case Nil
  then show ?case by simp
next
  case (Cons f files)
  let ?n = "dict_get f ''name'' JNull" and ?c = "dict_get f ''content'' JNull"
  show ?case
  proof (cases "\<not> truthy ?n \<or> \<not> truthy ?c")
    case True
    with Cons.prems have "push_loop e repo rnd files latest s = (Inl x, s1)"
      by (auto simp: Let_def)
    from Cons.IH [OF this] show ?thesis .
  next
    case False
    obtain r0 s0 where pf: "push_file e repo rnd ?n ?c latest s = (r0, s0)"
      by (cases "push_file e repo rnd ?n ?c latest s")
    show ?thesis
    proof (cases r0)
      case (Inl y)
      with False pf Cons.prems have "y = x" by (auto simp: Let_def)
      with pf Inl push_file_exn show ?thesis by blast
    next
      case (Inr l1)
      with False pf Cons.prems have "push_loop e repo rnd files l1 s0 = (Inl x, s1)"
        by (auto simp: Let_def)
      from Cons.IH [OF this] show ?thesis .
    qed
  qed
qed

lemma PushToRepo_batch:
  assumes "PushToRepo e repo rnd files s = (res, s')"
  shows "\<exists>rest. batch_requests rnd repo files (new_events s s' @ rest) \<and>
                (res = Inl NoFilesPushed \<or> (\<exists>v. res = Inr v) \<longrightarrow> rest = [])"
proof -
  obtain r1 s1 where pl: "push_loop e repo rnd files (JStr []) s = (r1, s1)"
    by (cases "push_loop e repo rnd files (JStr []) s")
  from assms pl have s': "s' = s1"
    by (auto simp: PushToRepo_def split: sum.splits if_splits)
  from push_loop_exn [of e repo rnd files "JStr []" s _ s1] assms pl
  have res: "res = Inl NoFilesPushed \<or> (\<exists>v. res = Inr v) \<Longrightarrow> \<exists>v. r1 = Inr v"
    by (cases r1) (auto simp: PushToRepo_def split: if_splits)
  from push_loop_batch [OF pl] obtain C rest where
    c: "trace s1 = trace s @ C" "batch_requests rnd repo files (C @ rest)"
       "(\<exists>v. r1 = Inr v) \<longrightarrow> rest = []" by blast
  have "new_events s s' = C" by (simp add: new_events_def s' c(1))
  with c(2,3) res show ?thesis by blast
qed




text \<open>
  Claim C7, as stated, fails: an accepted write whose answer carries no commit identifier
  leaves the identifier kept so far in place (the default of line 147). Here both writes
  are accepted, the last accepted one is that of \<open>LICENSE\<close>, and \<open>PushToRepo\<close> returns the
  identifier of the write of \<open>index.html\<close>.
\<close>

theorem PushToRepo_keeps_earlier_id:
  "fst (PushToRepo terse_env ''demo_n1'' 1
          [[(''name'', JStr ''index.html''), (''content'', JStr ''aGk='')],
           [(''name'', JStr ''LICENSE''), (''content'', JStr ''TUlU'')]] start) =
     Inr (JStr ''c0ffee'') \<and>
   map written_name
     (filter accepted
        (new_events start
           (snd (PushToRepo terse_env ''demo_n1'' 1
                   [[(''name'', JStr ''index.html''), (''content'', JStr ''aGk='')],
                    [(''name'', JStr ''LICENSE''), (''content'', JStr ''TUlU'')]] start)))) =
     [JStr ''index.html'', JStr ''LICENSE''] \<and>
   map commit_id
     (filter accepted
        (new_events start
           (snd (PushToRepo terse_env ''demo_n1'' 1
                   [[(''name'', JStr ''index.html''), (''content'', JStr ''aGk='')],
                    [(''name'', JStr ''LICENSE''), (''content'', JStr ''TUlU'')]] start)))) =
     [Some (JStr ''c0ffee''), None]"
  by (simp add: terse_env_def run_defs)

text \<open>
  Claim C7, amended. When the platform keeps to its interface during the run
  (\<open>answers_well\<close>: every request is answered, a lookup that succeeds describes the file
  as an object, a write answer has a JSON body, and an accepted write reports a commit
  identifier that is not empty), the requests of \<open>PushToRepo\<close> are the lookup and the
  write of each file of the batch that has a name and a content, in the order of the
  batch, and \<open>PushToRepo\<close> returns the commit identifier of the last accepted write if
  at least one write was accepted, and raises \<open>No files were pushed successfully\<close> if
  none was. Whatever the platform answers, a run in which no write was accepted ends with
  an exception, never with a value.
\<close>

theorem PushToRepo_last_accepted:
  assumes "PushToRepo e repo rnd files s = (res, s')"
  shows "(filter accepted (new_events s s') = [] \<longrightarrow> (\<exists>x. res = Inl x)) \<and>
         (list_all answers_well (new_events s s') \<longrightarrow>
            batch_requests rnd repo files (new_events s s') \<and>
            map written_name (filter (\<lambda>ev. kind_of ev = KWrite) (new_events s s')) =
              map (\<lambda>f. dict_get f ''name'' JNull)
                (filter (\<lambda>f. truthy (dict_get f ''name'' JNull) \<and> truthy (dict_get f ''content'' JNull))
                   files) \<and>
            (if filter accepted (new_events s s') = [] then res = Inl NoFilesPushed
             else \<exists>v. commit_id (last (filter accepted (new_events s s'))) = Some v \<and> res = Inr v))"
proof -
  obtain r1 s1 where pl: "push_loop e repo rnd files (JStr []) s = (r1, s1)"
    by (cases "push_loop e repo rnd files (JStr []) s")
  from push_loop_trace [OF pl] obtain new where
    n: "trace s1 = trace s @ new"
       "\<forall>v. r1 = Inr v \<longrightarrow> filter accepted new = [] \<longrightarrow> v = JStr []"
       "list_all answers_well new \<longrightarrow>
          (filter accepted new = [] \<and> r1 = Inr (JStr [])) \<or>
          (filter accepted new \<noteq> [] \<and>
             (\<exists>v. commit_id (last (filter accepted new)) = Some v \<and> truthy v \<and> r1 = Inr v))"
    by blast
  from assms pl have s': "s' = s1"
    by (auto simp: PushToRepo_def split: sum.splits if_splits)
  from assms pl have res: "res = (case r1 of Inl x \<Rightarrow> Inl x
        | Inr l \<Rightarrow> if \<not> truthy l then Inl NoFilesPushed else Inr l)"
    by (auto simp: PushToRepo_def split: sum.splits if_splits)
  have ne: "new_events s s' = new" by (simp add: new_events_def s' n(1))
  have last: "(filter accepted new = [] \<longrightarrow> (\<exists>x. res = Inl x)) \<and>
         (list_all answers_well new \<longrightarrow>
            (if filter accepted new = [] then res = Inl NoFilesPushed
             else \<exists>v. commit_id (last (filter accepted new)) = Some v \<and> res = Inr v))"
    using n(2,3) res by (cases r1) auto
  have order: "batch_requests rnd repo files new \<and>
      map written_name (filter (\<lambda>ev. kind_of ev = KWrite) new) =
        map (\<lambda>f. dict_get f ''name'' JNull)
          (filter (\<lambda>f. truthy (dict_get f ''name'' JNull) \<and> truthy (dict_get f ''content'' JNull)) files)"
    if well: "list_all answers_well new"
  proof -
    from last well have "res = Inl NoFilesPushed \<or> (\<exists>v. res = Inr v)" by (auto split: if_splits)
    with PushToRepo_batch [OF assms] ne have b: "batch_requests rnd repo files new" by auto
    from batch_requests_writes [OF b] b show ?thesis by simp
  qed
  from last order show ?thesis unfolding ne by blast
qed

text \<open>Two files, both accepted; then the same two files, both rejected with status 422.\<close>

theorem PushToRepo_last_accepted_witness:
  "(\<exists>s'. PushToRepo (example_env 201 GenRaises 1) ''demo_n1'' 1
            [[(''name'', JStr ''index.html''), (''content'', JStr ''aGk='')],
             [(''name'', JStr ''LICENSE''), (''content'', JStr ''TUlU'')]] start
           = (Inr (JStr ''c0ffee''), s') \<and>
         list_all answers_well (new_events start s') \<and>
         map written_name (filter accepted (new_events start s')) =
           [JStr ''index.html'', JStr ''LICENSE''] \<and>
         commit_id (last (filter accepted (new_events start s'))) = Some (JStr ''c0ffee'')) \<and>
   (\<exists>s'. PushToRepo (example_env 422 GenRaises 1) ''demo_n1'' 1
            [[(''name'', JStr ''index.html''), (''content'', JStr ''aGk='')],
             [(''name'', JStr ''LICENSE''), (''content'', JStr ''TUlU'')]] start
           = (Inl NoFilesPushed, s') \<and>
         list_all answers_well (new_events start s') \<and>
         filter accepted (new_events start s') = [])"
proof -
  let ?files = "[[(''name'', JStr ''index.html''), (''content'', JStr ''aGk='')],
                 [(''name'', JStr ''LICENSE''), (''content'', JStr ''TUlU'')]]"
  obtain r1 s1 where run1: "PushToRepo (example_env 201 GenRaises 1) ''demo_n1'' 1 ?files start = (r1, s1)"
    by (cases "PushToRepo (example_env 201 GenRaises 1) ''demo_n1'' 1 ?files start")
  obtain r2 s2 where run2: "PushToRepo (example_env 422 GenRaises 1) ''demo_n1'' 1 ?files start = (r2, s2)"
    by (cases "PushToRepo (example_env 422 GenRaises 1) ''demo_n1'' 1 ?files start")
  have t1: "trace s1 =
      [Requested (GetContents ''demo_n1'' (JStr ''index.html''))
         (Response 404 (Some (JObj [(''message'', JStr ''Not Found'')]))),
       Requested (PutContents ''demo_n1'' (JStr ''index.html'')
                    \<lparr>message = (1, Create, JStr ''index.html''), content = JStr ''aGk='', sha = None\<rparr>)
         (Response 201 (Some (JObj [(''commit'', JObj [(''sha'', JStr ''c0ffee'')])]))),
       Requested (GetContents ''demo_n1'' (JStr ''LICENSE''))
         (Response 404 (Some (JObj [(''message'', JStr ''Not Found'')]))),
       Requested (PutContents ''demo_n1'' (JStr ''LICENSE'')
                    \<lparr>message = (1, Create, JStr ''LICENSE''), content = JStr ''TUlU'', sha = None\<rparr>)
         (Response 201 (Some (JObj [(''commit'', JObj [(''sha'', JStr ''c0ffee'')])])))]"
    using run1 by (auto simp: run_defs)
  have t2: "trace s2 =
      [Requested (GetContents ''demo_n1'' (JStr ''index.html''))
         (Response 404 (Some (JObj [(''message'', JStr ''Not Found'')]))),
       Requested (PutContents ''demo_n1'' (JStr ''index.html'')
                    \<lparr>message = (1, Create, JStr ''index.html''), content = JStr ''aGk='', sha = None\<rparr>)
         (Response 422 (Some (JObj [(''commit'', JObj [(''sha'', JStr ''c0ffee'')])]))),
       Requested (GetContents ''demo_n1'' (JStr ''LICENSE''))
         (Response 404 (Some (JObj [(''message'', JStr ''Not Found'')]))),
       Requested (PutContents ''demo_n1'' (JStr ''LICENSE'')
                    \<lparr>message = (1, Create, JStr ''LICENSE''), content = JStr ''TUlU'', sha = None\<rparr>)
         (Response 422 (Some (JObj [(''commit'', JObj [(''sha'', JStr ''c0ffee'')])])))]"
    using run2 by (auto simp: run_defs)
  have n1: "new_events start s1 = trace s1" and n2: "new_events start s2 = trace s2"
    by (simp_all add: new_events_def start_def)
  from PushToRepo_last_accepted [OF run1] have "r1 = Inr (JStr ''c0ffee'')"
    by (simp add: n1 t1)
  moreover from PushToRepo_last_accepted [OF run2] have "r2 = Inl NoFilesPushed"
    by (simp add: n2 t2)
  ultimately show ?thesis
    using run1 run2 by (simp add: n1 n2 t1 t2)
qed


section \<open>Facts about the notifier\<close>

lemma map_pow_shift:
  "map (\<lambda>i. (d::int) * 2 ^ i) [0..<Suc n] = d # map (\<lambda>i. (d * 2) * 2 ^ i) [0..<n]"
proof -
  have "[0..<Suc n] = 0 # map Suc [0..<n]"
    by (simp add: upt_conv_Cons map_Suc_upt del: upt_Suc)
  then show ?thesis by (simp add: o_def mult.assoc del: upt_Suc)
qed

lemma notify_loop_trace:
  "\<exists>new. trace (notify_loop e url pl m a d s) = trace s @ new \<and>
     int (length (filter is_notify new)) \<le> max 0 (m - a) \<and>
     (a < m \<longrightarrow> new \<noteq> [] \<and> filter is_notify new \<noteq> []) \<and>
     delays new = map (\<lambda>i. d * 2 ^ i) [0..<length (filter is_notify new) - 1] \<and>
     filter notified_ok (butlast new) = [] \<and>
     (filter notified_ok new = [] \<longrightarrow> int (length (filter is_notify new)) = max 0 (m - a))"
proof (induction e url pl m a d s rule: notify_loop.induct)
  case (1 e url pl m a d s)
  show ?case
  proof (cases "a < m")
    case False
    then have "notify_loop e url pl m a d s = s" by (subst notify_loop.simps) simp
    with False show ?thesis by (intro exI [of _ "[]"]) simp
  next
    case True
    obtain r s1 where rq: "request e (PostCallback url pl) s = (r, s1)"
      by (cases "request e (PostCallback url pl) s")
    let ?ev = "Requested (PostCallback url pl) r"
    from request_trace [OF rq] have t1: "trace s1 = trace s @ [?ev]" .
    let ?ok = "case r of Response st body \<Rightarrow> st = 200 | ConnectionError \<Rightarrow> False"
    have ok: "notified_ok ?ev = ?ok" by (cases r) auto
    show ?thesis
    proof (cases ?ok)
      case True
      with \<open>a < m\<close> rq have eq: "notify_loop e url pl m a d s = s1"
        by (subst notify_loop.simps) simp
      show ?thesis
        using t1 \<open>a < m\<close> True by (intro exI [of _ "[?ev]"]) (simp add: eq ok)
    next
      case nok: False
      show ?thesis
      proof (cases "a < m - 1")
        case more: True
        let ?s2 = "time_sleep e d s1"
        have t2: "trace ?s2 = trace s @ [?ev, Slept d]" by (simp add: time_sleep_def t1)
        from True rq nok more
        have eq: "notify_loop e url pl m a d s = notify_loop e url pl m (a + 1) (d * 2) ?s2"
          by (subst notify_loop.simps) simp
        from "1.IH"(1) [OF True rq [symmetric] nok more]
        obtain new where n:
          "trace (notify_loop e url pl m (a + 1) (d * 2) ?s2) = trace ?s2 @ new"
          "int (length (filter is_notify new)) \<le> max 0 (m - (a + 1))"
          "a + 1 < m \<longrightarrow> new \<noteq> [] \<and> filter is_notify new \<noteq> []"
          "delays new = map (\<lambda>i. (d * 2) * 2 ^ i) [0..<length (filter is_notify new) - 1]"
          "filter notified_ok (butlast new) = []"
          "filter notified_ok new = [] \<longrightarrow> int (length (filter is_notify new)) = max 0 (m - (a + 1))"
          by blast
        from more n(3) have ne: "new \<noteq> []" "filter is_notify new \<noteq> []" by auto
        then obtain k where k: "length (filter is_notify new) = Suc k"
          by (cases "filter is_notify new") auto
        show ?thesis
        proof (intro exI [of _ "[?ev, Slept d] @ new"] conjI impI)
          show "trace (notify_loop e url pl m a d s) = trace s @ [?ev, Slept d] @ new"
            by (simp add: eq n(1) t2)
          show "int (length (filter is_notify ([?ev, Slept d] @ new))) \<le> max 0 (m - a)"
            using n(2) more by simp
          show "[?ev, Slept d] @ new \<noteq> []" by simp
          show "filter is_notify ([?ev, Slept d] @ new) \<noteq> []" by simp
          show "delays ([?ev, Slept d] @ new) =
                  map (\<lambda>i. d * 2 ^ i) [0..<length (filter is_notify ([?ev, Slept d] @ new)) - 1]"
            using n(4) by (simp add: k map_pow_shift del: upt_Suc)
          show "filter notified_ok (butlast ([?ev, Slept d] @ new)) = []"
            using n(5) ne(1) nok by (simp add: ok butlast_append)
          show "int (length (filter is_notify ([?ev, Slept d] @ new))) = max 0 (m - a)"
            if "filter notified_ok ([?ev, Slept d] @ new) = []"
            using that n(6) more by (auto split: if_splits)
        qed
      next
        case last: False
        with True have am: "a + 1 = m" by simp
        from True rq nok last
        have "notify_loop e url pl m a d s = notify_loop e url pl m (a + 1) d s1"
          by (subst notify_loop.simps) simp
        also have "\<dots> = s1" using am by (subst notify_loop.simps) simp
        finally have eq: "notify_loop e url pl m a d s = s1" .
        show ?thesis
          using t1 am nok by (intro exI [of _ "[?ev]"]) (simp add: eq ok)
      qed
    qed
  qed
qed


lemma doubling_take:
  "j \<le> 4 \<Longrightarrow> map (\<lambda>i. (1::int) * 2 ^ i) [0..<j] = take j [1, 2, 4, 8]"
proof -
  assume "j \<le> 4"
  then consider "j = 0" | "j = 1" | "j = 2" | "j = 3" | "j = 4" by linarith
  then show ?thesis
    by cases (simp_all add: upt_conv_Cons del: upt_Suc)
qed

text \<open>
  Claim C5. \<open>PostToEvaluationAPI\<close> makes at most five POST attempts (the configured
  maximum); the delays it sleeps between them are 1, 2, 4, 8 seconds, one less than the
  attempts made; an attempt answered with status 200 is the last thing it does; and when
  no attempt is answered with 200 it makes all five.
\<close>

theorem PostToEvaluationAPI_backoff:
  "length (filter is_notify
      (new_events s (PostToEvaluationAPI e requestData repoURL commitSHA pagesURL s))) \<le> 5 \<and>
   delays (new_events s (PostToEvaluationAPI e requestData repoURL commitSHA pagesURL s)) =
     take (length (filter is_notify
       (new_events s (PostToEvaluationAPI e requestData repoURL commitSHA pagesURL s))) - 1)
       [1, 2, 4, 8] \<and>
   filter notified_ok
     (butlast (new_events s (PostToEvaluationAPI e requestData repoURL commitSHA pagesURL s))) = [] \<and>
   (filter notified_ok
      (new_events s (PostToEvaluationAPI e requestData repoURL commitSHA pagesURL s)) = [] \<longrightarrow>
    length (filter is_notify
      (new_events s (PostToEvaluationAPI e requestData repoURL commitSHA pagesURL s))) = 5)"
proof -
  let ?s' = "PostToEvaluationAPI e requestData repoURL commitSHA pagesURL s"
  from notify_loop_trace [of e "evaluation_url requestData"
      "evaluation_payload requestData repoURL commitSHA pagesURL" 5 0 1 s]
  obtain new where n:
    "trace ?s' = trace s @ new"
    "int (length (filter is_notify new)) \<le> max 0 (5 - 0)"
    "delays new = map (\<lambda>i. 1 * 2 ^ i) [0..<length (filter is_notify new) - 1]"
    "filter notified_ok (butlast new) = []"
    "filter notified_ok new = [] \<longrightarrow> int (length (filter is_notify new)) = max 0 (5 - 0)"
    unfolding PostToEvaluationAPI_def by blast
  have ne: "new_events s ?s' = new" by (simp add: new_events_def n(1))
  from n(2) have le: "length (filter is_notify new) \<le> 5" by simp
  then have "length (filter is_notify new) - 1 \<le> 4" by simp
  from doubling_take [OF this] n(3)
  have "delays new = take (length (filter is_notify new) - 1) [1, 2, 4, 8]" by simp
  with le n(4,5) show ?thesis unfolding ne by simp
qed

lemmas notify_defs = PostToEvaluationAPI_def notify_loop.simps example_env_def start_def
  request_def time_sleep_def new_events_def evaluation_payload_def demo_request_def

text \<open>A callback that never answers 200: five attempts, with delays 1, 2, 4 and 8
  between them.\<close>

theorem PostToEvaluationAPI_backoff_witness:
  "filter notified_ok
     (new_events start (PostToEvaluationAPI (example_env 201 GenRaises 0) (demo_request 1)
        (JStr ''https://example.org/repo'') (JStr ''c0ffee'') ''https://example.org/pages'' start)) = [] \<and>
   length (filter is_notify
     (new_events start (PostToEvaluationAPI (example_env 201 GenRaises 0) (demo_request 1)
        (JStr ''https://example.org/repo'') (JStr ''c0ffee'') ''https://example.org/pages'' start))) = 5 \<and>
   delays
     (new_events start (PostToEvaluationAPI (example_env 201 GenRaises 0) (demo_request 1)
        (JStr ''https://example.org/repo'') (JStr ''c0ffee'') ''https://example.org/pages'' start)) =
     [1, 2, 4, 8]"
proof -
  let ?new = "new_events start (PostToEvaluationAPI (example_env 201 GenRaises 0) (demo_request 1)
        (JStr ''https://example.org/repo'') (JStr ''c0ffee'') ''https://example.org/pages'' start)"
  have h: "filter notified_ok ?new = []"
    by (simp add: notify_defs)
  from PostToEvaluationAPI_backoff [where s = start and e = "example_env 201 GenRaises 0"
      and requestData = "demo_request 1" and repoURL = "JStr ''https://example.org/repo''"
      and commitSHA = "JStr ''c0ffee''" and pagesURL = "''https://example.org/pages''"] h
  show ?thesis by simp
qed

section \<open>Facts about the generation adapter\<close>

lemma attachment_loop_closed:
  "attachment_loop lib atts ctx =
     ctx @ map (\<lambda>a. AttachmentEntry (att_name a) (takeWhile (\<lambda>c. c \<noteq> CHR '';'') (att_url a))
                        (the (decode_attachment lib a)))
               (filter (\<lambda>a. decode_attachment lib a \<noteq> None) atts)"
  by (induction atts arbitrary: ctx) (auto split: option.splits)

lemma generate_trace:
  assumes "generate e p s = (r, s')"
  shows "if r = NoClient then s' = s else trace s' = trace s @ [Generated p r]"
  using assms by (auto simp: generate_def split: prod.splits gen_result.splits)

lemma LLMCode_events:
  assumes "LLMCode lib e requestData ex s = (res, s')"
  obtains (no_client) "generate e (fullPrompt lib requestData ex) s = (NoClient, s')"
      "res = Inl ValueError" "s' = s"
    | (called) r where "generate e (fullPrompt lib requestData ex) s = (r, s')" "r \<noteq> NoClient"
      "trace s' = trace s @ [Generated (fullPrompt lib requestData ex) r]"
proof -
  obtain r s1 where g: "generate e (fullPrompt lib requestData ex) s = (r, s1)"
    by (cases "generate e (fullPrompt lib requestData ex) s")
  with assms have s1: "s1 = s'"
    by (auto simp: LLMCode_def split: gen_result.splits option.splits sum.splits)
  show thesis
  proof (cases "r = NoClient")
    case True
    with g s1 assms generate_trace [OF g] show thesis
      by (intro no_client) (auto simp: LLMCode_def)
  next
    case False
    with g s1 generate_trace [OF g] show thesis by (intro called [of r]) auto
  qed
qed

lemma LLMCode_kinds:
  assumes "LLMCode lib e requestData ex s = (res, s')"
  shows "\<exists>G. trace s' = trace s @ G \<and> kind_of ` set G \<subseteq> {KGenerate} \<and>
             (\<forall>p r. Generated p r \<in> set G \<longrightarrow>
                p = fullPrompt lib requestData ex \<and> generate e (fullPrompt lib requestData ex) s = (r, s')) \<and>
             ((\<exists>files. res = Inr files) \<longrightarrow>
                (\<exists>r. G = [Generated (fullPrompt lib requestData ex) r]))"
  using assms
proof (cases rule: LLMCode_events)
  case no_client
  then show ?thesis by (intro exI [of _ "[]"]) simp
next
  case (called r)
  then show ?thesis
    by (intro exI [of _ "[Generated (fullPrompt lib requestData ex) r]"]) simp
qed

lemma build_context_attachments:
  assumes "attachments requestData = Some atts" and "atts \<noteq> []"
  shows "build_context lib requestData existingFiles =
           (if existingFiles \<noteq> []
            then ExistingHeader # map (\<lambda>(fileName, c). ExistingFile fileName c) existingFiles
            else []) @
           AttachmentsHeader #
           map (\<lambda>a. AttachmentEntry (att_name a) (takeWhile (\<lambda>c. c \<noteq> CHR '';'') (att_url a))
                      (the (decode_attachment lib a)))
               (filter (\<lambda>a. decode_attachment lib a \<noteq> None) atts)"
proof -
  from assms(2) obtain a as where "atts = a # as" by (cases atts) auto
  with assms(1) show ?thesis
    by (simp add: build_context_def attachment_loop_closed Let_def del: attachment_loop.simps)
qed

lemma LLMCode_without_attachment:
  assumes "attachments requestData = Some (as1 @ a # as2)"
    and "decode_attachment lib a = None" and "as1 @ as2 \<noteq> []"
  shows "LLMCode lib e (requestData\<lparr>attachments := Some (as1 @ as2)\<rparr>) ex s =
         LLMCode lib e requestData ex s"
proof -
  have "build_context lib (requestData\<lparr>attachments := Some (as1 @ as2)\<rparr>) ex =
        build_context lib requestData ex"
    using assms(2)
    by (simp add: build_context_attachments [OF assms(1)]
          build_context_attachments [of "requestData\<lparr>attachments := Some (as1 @ as2)\<rparr>", OF _ assms(3)])
  then have fp: "fullPrompt lib (requestData\<lparr>attachments := Some (as1 @ as2)\<rparr>) ex =
                 fullPrompt lib requestData ex"
    by (simp add: fullPrompt_def)
  have ad: "add_defaults lib (requestData\<lparr>attachments := Some (as1 @ as2)\<rparr>) enc =
            add_defaults lib requestData enc" for enc
    by (simp add: add_defaults_def Let_def)
  show ?thesis unfolding LLMCode_def fp ad by (rule refl)
qed

lemma Process_without_attachments:
  assumes "\<And>ex s. LLMCode lib e (requestData\<lparr>attachments := x\<rparr>) ex s = LLMCode lib e requestData ex s"
  shows "ProcessTaskInBackground lib e (requestData\<lparr>attachments := x\<rparr>) s =
         ProcessTaskInBackground lib e requestData s"
proof -
  let ?rq = "requestData\<lparr>attachments := x\<rparr>"
  have pv: "provision e ?rq repo s0 = provision e requestData repo s0" for repo s0
    by (simp add: provision_def)
  have gc: "gather_context lib e ?rq repo s0 = gather_context lib e requestData repo s0" for repo s0
    by (simp add: gather_context_def)
  have pe: "PostToEvaluationAPI e ?rq url csha pages s0 =
            PostToEvaluationAPI e requestData url csha pages s0" for url csha pages s0
    by (simp add: PostToEvaluationAPI_def evaluation_payload_def)
  have pn: "publish_and_notify e ?rq repo url csha s0 =
            publish_and_notify e requestData repo url csha s0" for repo url csha s0
    unfolding publish_and_notify_def pe by (rule refl)
  have rd: "round ?rq = round requestData" by simp
  have cf: "commit_files e ?rq repo url files s0 = commit_files e requestData repo url files s0"
    for repo url files s0
    unfolding commit_files_def pn rd by (rule refl)
  have nm: "GetRepoName (task ?rq) (nonce ?rq) = GetRepoName (task requestData) (nonce requestData)"
    by simp
  show ?thesis unfolding ProcessTaskInBackground_def nm pv gc cf assms by (rule refl)
qed

text \<open>
  Claim C8. For a request with attachments: an attachment whose data URI does not decode
  (\<open>decode_attachment\<close> is \<open>None\<close>: no single \<open>;base64,\<close> marker, or a payload the
  codec rejects) is left out of the generation context, in which the attachments that
  decode are listed in order after the attachments header. Processing goes on as if the
  attachment were not there: when other attachments remain, the adapter and the whole
  orchestrator run are exactly those of the request without it. Whatever the attachments,
  the adapter returns the files of the answer when the service answers with entries that
  can be encoded, and an exception leaves the adapter only when the client of the service
  cannot be constructed or an entry of the answer cannot be read: never on account of an
  attachment.
\<close>

theorem LLMCode_skips_undecodable:
  assumes "attachments requestData = Some atts" and "atts \<noteq> []"
  shows "p_context (fullPrompt lib requestData existingFiles) =
           (if existingFiles \<noteq> []
            then ExistingHeader # map (\<lambda>(fileName, c). ExistingFile fileName c) existingFiles
            else []) @
           AttachmentsHeader #
           map (\<lambda>a. AttachmentEntry (att_name a) (takeWhile (\<lambda>c. c \<noteq> CHR '';'') (att_url a))
                      (the (decode_attachment lib a)))
               (filter (\<lambda>a. decode_attachment lib a \<noteq> None) atts) \<and>
         (decode_attachment lib a = None \<and> atts = as1 @ a # as2 \<and> as1 @ as2 \<noteq> [] \<longrightarrow>
            LLMCode lib e requestData existingFiles s =
              LLMCode lib e (requestData\<lparr>attachments := Some (as1 @ as2)\<rparr>) existingFiles s \<and>
            ProcessTaskInBackground lib e requestData s =
              ProcessTaskInBackground lib e (requestData\<lparr>attachments := Some (as1 @ as2)\<rparr>) s) \<and>
         (generate e (fullPrompt lib requestData existingFiles) s = (GenText (Some j), s1) \<and>
          encode_files lib j = Inr enc \<longrightarrow>
            LLMCode lib e requestData existingFiles s = (Inr (add_defaults lib requestData enc), s1)) \<and>
         (LLMCode lib e requestData existingFiles s = (Inl x, s2) \<longrightarrow>
            generate e (fullPrompt lib requestData existingFiles) s = (NoClient, s2) \<and> x = ValueError \<or>
            (\<exists>j'. generate e (fullPrompt lib requestData existingFiles) s = (GenText (Some j'), s2) \<and>
                   encode_files lib j' = Inl x))"
proof (intro conjI impI)
  show "p_context (fullPrompt lib requestData existingFiles) =
           (if existingFiles \<noteq> []
            then ExistingHeader # map (\<lambda>(fileName, c). ExistingFile fileName c) existingFiles
            else []) @
           AttachmentsHeader #
           map (\<lambda>a. AttachmentEntry (att_name a) (takeWhile (\<lambda>c. c \<noteq> CHR '';'') (att_url a))
                      (the (decode_attachment lib a)))
               (filter (\<lambda>a. decode_attachment lib a \<noteq> None) atts)"
    by (simp add: fullPrompt_def build_context_attachments [OF assms])
next
  assume h: "decode_attachment lib a = None \<and> atts = as1 @ a # as2 \<and> as1 @ as2 \<noteq> []"
  with assms(1) have at: "attachments requestData = Some (as1 @ a # as2)" by simp
  note eq = LLMCode_without_attachment [OF at, of lib e]
  from h show "LLMCode lib e requestData existingFiles s =
              LLMCode lib e (requestData\<lparr>attachments := Some (as1 @ as2)\<rparr>) existingFiles s"
    by (simp add: eq)
  from h have "\<And>ex s. LLMCode lib e (requestData\<lparr>attachments := Some (as1 @ as2)\<rparr>) ex s =
                     LLMCode lib e requestData ex s"
    by (simp add: eq)
  from Process_without_attachments [OF this]
  show "ProcessTaskInBackground lib e requestData s =
              ProcessTaskInBackground lib e (requestData\<lparr>attachments := Some (as1 @ as2)\<rparr>) s"
    by simp
next
  assume "generate e (fullPrompt lib requestData existingFiles) s = (GenText (Some j), s1) \<and>
          encode_files lib j = Inr enc"
  then show "LLMCode lib e requestData existingFiles s = (Inr (add_defaults lib requestData enc), s1)"
    by (simp add: LLMCode_def)
next
  assume "LLMCode lib e requestData existingFiles s = (Inl x, s2)"
  then show "generate e (fullPrompt lib requestData existingFiles) s = (NoClient, s2) \<and> x = ValueError \<or>
            (\<exists>j'. generate e (fullPrompt lib requestData existingFiles) s = (GenText (Some j'), s2) \<and>
                   encode_files lib j' = Inl x)"
    by (auto simp: LLMCode_def split: prod.splits gen_result.splits option.splits sum.splits)
qed

text \<open>Three attachments: one that decodes, one without the \<open>;base64,\<close> marker and one
  whose payload the codec rejects. Only the first reaches the context; the adapter returns
  the page of the answer with the two default files, and the round runs to the
  notification.\<close>

theorem LLMCode_skips_undecodable_witness:
  "map (decode_attachment example_codec) demo_attachments = [Some ''hi'', None, None] \<and>
   p_context (fullPrompt example_codec ((demo_request 1)\<lparr>attachments := Some demo_attachments\<rparr>) []) =
     [AttachmentsHeader, AttachmentEntry ''a.txt'' ''data:text/plain'' ''hi''] \<and>
   fst (LLMCode example_codec
          (example_env 201
             (GenText (Some (JArr [JObj [(''name'', JStr ''index.html''),
                                         (''content'', JStr ''<h1>hi</h1>'')]]))) 1)
          ((demo_request 1)\<lparr>attachments := Some demo_attachments\<rparr>) [] start) =
     Inr [artifact (JStr ''index.html'') ''b64:<h1>hi</h1>'',
          artifact (JStr ''LICENSE'') ''b64:MIT License...'',
          artifact (JStr ''README.md'')
            (''b64:# Task demo'' @ [CHR 0x0A] @ ''Brief: build a landing page'')] \<and>
   LLMCode example_codec
          (example_env 201
             (GenText (Some (JArr [JObj [(''name'', JStr ''index.html''),
                                         (''content'', JStr ''<h1>hi</h1>'')]]))) 1)
          ((demo_request 1)\<lparr>attachments := Some demo_attachments\<rparr>) [] start =
   LLMCode example_codec
          (example_env 201
             (GenText (Some (JArr [JObj [(''name'', JStr ''index.html''),
                                         (''content'', JStr ''<h1>hi</h1>'')]]))) 1)
          ((demo_request 1)\<lparr>attachments := Some [demo_attachments ! 0, demo_attachments ! 2]\<rparr>)
          [] start \<and>
   map kind_of
     (new_events start
        (snd (ProcessTaskInBackground example_codec
                (example_env 201
                   (GenText (Some (JArr [JObj [(''name'', JStr ''index.html''),
                                               (''content'', JStr ''<h1>hi</h1>'')]]))) 1)
                ((demo_request 1)\<lparr>attachments := Some demo_attachments\<rparr>) start))) =
     [KCreate, KGenerate, KLookup, KWrite, KLookup, KWrite, KLookup, KWrite, KPublish, KNotify] \<and>
   LLMCode example_codec (example_env 201 NoClient 1)
     ((demo_request 1)\<lparr>attachments := Some demo_attachments\<rparr>) [] start = (Inl ValueError, start) \<and>
   generate (example_env 201 NoClient 1)
     (fullPrompt example_codec ((demo_request 1)\<lparr>attachments := Some demo_attachments\<rparr>) []) start =
     (NoClient, start)"
proof -
  let ?j = "JArr [JObj [(''name'', JStr ''index.html''), (''content'', JStr ''<h1>hi</h1>'')]]"
  let ?e = "example_env 201 (GenText (Some ?j)) 1"
  let ?rq = "(demo_request 1)\<lparr>attachments := Some demo_attachments\<rparr>"
  let ?enc = "[artifact (JStr ''index.html'') ''b64:<h1>hi</h1>'']"
  let ?g = "generate ?e (fullPrompt example_codec ?rq []) start"
  have a: "attachments ?rq = Some demo_attachments" by simp
  have b: "demo_attachments \<noteq> []" by (simp add: demo_attachments_def)
  have d: "map (decode_attachment example_codec) demo_attachments = [Some ''hi'', None, None]"
    by (simp add: demo_attachments_def decode_attachment_def py_split_def example_codec_def)
  have h1: "decode_attachment example_codec (demo_attachments ! 1) = None \<and>
            demo_attachments = [demo_attachments ! 0] @ demo_attachments ! 1 # [demo_attachments ! 2] \<and>
            [demo_attachments ! 0] @ [demo_attachments ! 2] \<noteq> []"
    using d by (simp add: demo_attachments_def)
  have h2: "?g = (GenText (Some ?j), snd ?g) \<and> encode_files example_codec ?j = Inr ?enc"
    by (simp add: generate_def example_env_def start_def encode_files_def dict_get_def
          example_codec_def)
  have df: "add_defaults example_codec ?rq ?enc =
     [artifact (JStr ''index.html'') ''b64:<h1>hi</h1>'',
      artifact (JStr ''LICENSE'') ''b64:MIT License...'',
      artifact (JStr ''README.md'') (''b64:# Task demo'' @ [CHR 0x0A] @ ''Brief: build a landing page'')]"
    by (simp add: add_defaults_def has_name_def artifact_def dict_get_def demo_request_def
          example_codec_def)
  have k: "map kind_of (new_events start (snd (ProcessTaskInBackground example_codec ?e ?rq start))) =
     [KCreate, KGenerate, KLookup, KWrite, KLookup, KWrite, KLookup, KWrite, KPublish, KNotify]"
    by (simp add: orchestrator_defs)
  note inst = LLMCode_skips_undecodable [OF a b, where lib = example_codec and e = ?e
      and existingFiles = "[]" and s = start and a = "demo_attachments ! 1"
      and ?as1.0 = "[demo_attachments ! 0]" and ?as2.0 = "[demo_attachments ! 2]"
      and j = ?j and ?s1.0 = "snd ?g" and enc = ?enc]
  from inst [THEN conjunct1] d
  have c: "p_context (fullPrompt example_codec ?rq []) =
             [AttachmentsHeader, AttachmentEntry ''a.txt'' ''data:text/plain'' ''hi'']"
    by (simp add: demo_attachments_def)
  from inst [THEN conjunct2, THEN conjunct1, THEN mp, OF h1]
  have e: "LLMCode example_codec ?e ?rq [] start =
           LLMCode example_codec ?e
             ((demo_request 1)\<lparr>attachments := Some [demo_attachments ! 0, demo_attachments ! 2]\<rparr>)
             [] start"
    by simp
  from inst [THEN conjunct2, THEN conjunct2, THEN conjunct1, THEN mp, OF h2] df
  have r: "fst (LLMCode example_codec ?e ?rq [] start) =
     Inr [artifact (JStr ''index.html'') ''b64:<h1>hi</h1>'',
          artifact (JStr ''LICENSE'') ''b64:MIT License...'',
          artifact (JStr ''README.md'') (''b64:# Task demo'' @ [CHR 0x0A] @ ''Brief: build a landing page'')]"
    by simp
  have n: "LLMCode example_codec (example_env 201 NoClient 1) ?rq [] start = (Inl ValueError, start)"
    by (simp add: LLMCode_def generate_def example_env_def start_def)
  from LLMCode_skips_undecodable [OF a b, where lib = example_codec
      and e = "example_env 201 NoClient 1" and existingFiles = "[]" and s = start
      and x = ValueError and ?s2.0 = start,
      THEN conjunct2, THEN conjunct2, THEN conjunct2, THEN mp, OF n]
  have g: "generate (example_env 201 NoClient 1) (fullPrompt example_codec ?rq []) start =
             (NoClient, start)"
    by (auto simp: generate_def example_env_def start_def)
  from d c r e k n g show ?thesis by simp
qed

text \<open>
  Claim C1, as stated, fails: in round 1, when the answer of the generative service does
  not parse, \<open>LLMCode\<close> returns the fallback artifact alone, with neither a license nor
  a readme.
\<close>

theorem LLMCode_round1_parse_failure:
  "round (demo_request 1) = 1 \<and>
   fst (LLMCode example_codec (example_env 201 (GenText None) 1) (demo_request 1) [] start) =
     Inr [[(''name'', JStr ''error.html''),
           (''content'', JStr ''b64:<html><body><h1>Gemini code generation failed</h1></body></html>'')]] \<and>
   \<not> has_name ''LICENSE''
       [[(''name'', JStr ''error.html''),
         (''content'', JStr ''b64:<html><body><h1>Gemini code generation failed</h1></body></html>'')]] \<and>
   \<not> has_name ''README.md''
       [[(''name'', JStr ''error.html''),
         (''content'', JStr ''b64:<html><body><h1>Gemini code generation failed</h1></body></html>'')]]"
  by (simp add: LLMCode_def generate_def example_env_def start_def demo_request_def
        error_artifact_def artifact_def example_codec_def has_name_def dict_get_def)

text \<open>
  Claim C1, amended. In round 1, when the answer parses as JSON and the entries kept from
  it (\<open>encode_files\<close>: array entries with a non-empty name and content) name both
  \<open>LICENSE\<close> and \<open>README.md\<close> or neither, the list \<open>LLMCode\<close> returns has both; when
  neither is supplied the two are synthesized and appended, in this order.
\<close>

theorem LLMCode_round1_defaults:
  assumes "round requestData = 1"
    and "generate e (fullPrompt lib requestData existingFiles) s = (GenText (Some j), s1)"
    and "encode_files lib j = Inr enc"
    and "has_name ''LICENSE'' enc = has_name ''README.md'' enc"
  shows "\<exists>files. LLMCode lib e requestData existingFiles s = (Inr files, s1) \<and>
           has_name ''LICENSE'' files \<and> has_name ''README.md'' files \<and>
           (\<not> has_name ''LICENSE'' enc \<longrightarrow>
              files = enc @
                [artifact (JStr ''LICENSE'') (b64encode lib ''MIT License...''),
                 artifact (JStr ''README.md'')
                   (b64encode lib (''# Task '' @ task requestData @ [CHR 0x0A] @
                                   ''Brief: '' @ brief requestData))])"
proof -
  have run: "LLMCode lib e requestData existingFiles s = (Inr (add_defaults lib requestData enc), s1)"
    using assms(2,3) by (simp add: LLMCode_def)
  have any: "list_ex (\<lambda>f. dict_get f ''name'' JNull = JStr ''LICENSE'' \<or>
                          dict_get f ''name'' JNull = JStr ''README.md'') enc =
             (has_name ''LICENSE'' enc \<or> has_name ''README.md'' enc)"
    by (auto simp: has_name_def list_ex_iff)
  show ?thesis
  proof (cases "has_name ''LICENSE'' enc")
    case True
    with assms(4) have "has_name ''README.md'' enc" by simp
    with True any have "add_defaults lib requestData enc = enc"
      by (simp add: add_defaults_def)
    with run True \<open>has_name ''README.md'' enc\<close> show ?thesis by simp
  next
    case False
    with assms(4) have nr: "\<not> has_name ''README.md'' enc" by simp
    have l: "has_name ''LICENSE'' (enc @ [artifact (JStr ''LICENSE'') c])" for c
      by (simp add: has_name_def artifact_def dict_get_def)
    have r: "\<not> has_name ''README.md'' (enc @ [artifact (JStr ''LICENSE'') c])" for c
      using nr by (simp add: has_name_def artifact_def dict_get_def)
    have r': "has_name ''README.md'' (xs @ [artifact (JStr ''README.md'') c])" for xs c
      by (simp add: has_name_def artifact_def dict_get_def)
    have l': "has_name ''LICENSE'' (enc @ [artifact (JStr ''LICENSE'') c, x])" for c x
      by (simp add: has_name_def artifact_def dict_get_def)
    from False nr any assms(1) r
    have "add_defaults lib requestData enc =
            enc @ [artifact (JStr ''LICENSE'') (b64encode lib ''MIT License...''),
                   artifact (JStr ''README.md'')
                     (b64encode lib (''# Task '' @ task requestData @ [CHR 0x0A] @
                                     ''Brief: '' @ brief requestData))]"
      by (simp add: add_defaults_def Let_def)
    with run False l' r' [of "enc @ [artifact (JStr ''LICENSE'') (b64encode lib ''MIT License...'')]"]
    show ?thesis by simp
  qed
qed

text \<open>The service supplies a page only: license and readme are added.\<close>

theorem LLMCode_round1_defaults_witness:
  "round (demo_request 1) = 1 \<and>
   encode_files example_codec
     (JArr [JObj [(''name'', JStr ''index.html''), (''content'', JStr ''<h1>hi</h1>'')]]) =
     Inr [artifact (JStr ''index.html'') ''b64:<h1>hi</h1>''] \<and>
   LLMCode example_codec
     (example_env 201
        (GenText (Some (JArr [JObj [(''name'', JStr ''index.html''),
                                    (''content'', JStr ''<h1>hi</h1>'')]]))) 1)
     (demo_request 1) [] start =
     (Inr [artifact (JStr ''index.html'') ''b64:<h1>hi</h1>'',
           artifact (JStr ''LICENSE'') ''b64:MIT License...'',
           artifact (JStr ''README.md'')
             (''b64:# Task demo'' @ [CHR 0x0A] @ ''Brief: build a landing page'')],
      \<lparr>world = 0, trace =
         [Generated (fullPrompt example_codec (demo_request 1) [])
            (GenText (Some (JArr [JObj [(''name'', JStr ''index.html''),
                                        (''content'', JStr ''<h1>hi</h1>'')]])))]\<rparr>)"
proof -
  let ?j = "JArr [JObj [(''name'', JStr ''index.html''), (''content'', JStr ''<h1>hi</h1>'')]]"
  let ?e = "example_env 201 (GenText (Some ?j)) 1"
  let ?enc = "[artifact (JStr ''index.html'') ''b64:<h1>hi</h1>'']"
  have r: "round (demo_request 1) = 1" by (simp add: demo_request_def)
  have g: "generate ?e (fullPrompt example_codec (demo_request 1) []) start =
             (GenText (Some ?j),
              \<lparr>world = 0, trace = [Generated (fullPrompt example_codec (demo_request 1) [])
                                      (GenText (Some ?j))]\<rparr>)"
    by (simp add: generate_def example_env_def start_def)
  have enc: "encode_files example_codec ?j = Inr ?enc"
    by (simp add: encode_files_def dict_get_def example_codec_def)
  have both: "has_name ''LICENSE'' ?enc = has_name ''README.md'' ?enc"
    by (simp add: has_name_def artifact_def dict_get_def)
  have no: "\<not> has_name ''LICENSE'' ?enc"
    by (simp add: has_name_def artifact_def dict_get_def)
  from LLMCode_round1_defaults [OF r g enc both] no r enc
  show ?thesis by (auto simp: example_codec_def demo_request_def)
qed

section \<open>Facts about the orchestrator\<close>

lemma provision_trace:
  assumes "provision e requestData repo s = (r, s1)"
  shows "\<exists>A. trace s1 = trace s @ A \<and> kind_of ` set A \<subseteq> {KCreate} \<and>
             (round requestData \<noteq> 1 \<longrightarrow> s1 = s \<and> A = [])"
proof (cases "round requestData = 1")
  case False
  with assms show ?thesis by (intro exI [of _ "[]"]) (auto simp: provision_def)
next
  case True
  with assms have "CreateGithubRepo e repo s = (r, s1)" by (simp add: provision_def)
  then show ?thesis using True
    by (auto simp: CreateGithubRepo_def dest!: request_trace
             split: prod.splits http_result.splits if_splits option.splits)
qed

lemma GetFileContent_trace:
  assumes "GetFileContent lib e repo n s = (r, s1)"
  shows "\<exists>g. trace s1 = trace s @ [Requested (GetContents repo n) g]"
  using assms
  by (auto simp: GetFileContent_def dest!: request_trace
           split: prod.splits http_result.splits if_splits option.splits sum.splits json.splits)

lemma existing_item_trace:
  assumes "existing_item lib e repo item acc s = (r, s1)"
  shows "\<exists>B. trace s1 = trace s @ B \<and> kind_of ` set B \<subseteq> {KListing, KLookup}"
proof -
  have "s1 = s \<or> (\<exists>n r'. GetFileContent lib e repo n s = (r', s1))"
    using assms
    by (auto simp: existing_item_def
             split: sum.splits json.splits if_splits prod.splits option.splits)
  then show ?thesis
  proof
    assume "s1 = s" then show ?thesis by (intro exI [of _ "[]"]) simp
  next
    assume "\<exists>n r'. GetFileContent lib e repo n s = (r', s1)"
    then obtain n r' where "GetFileContent lib e repo n s = (r', s1)" by blast
    from GetFileContent_trace [OF this] show ?thesis by auto
  qed
qed

lemma existing_loop_trace:
  "existing_loop lib e repo items acc s = (r, s1) \<Longrightarrow>
   \<exists>B. trace s1 = trace s @ B \<and> kind_of ` set B \<subseteq> {KListing, KLookup}"
proof (induction items arbitrary: acc s)
  case Nil
  then show ?case by (intro exI [of _ "[]"]) simp
next
  case (Cons item items)
  obtain r0 s0 where it: "existing_item lib e repo item acc s = (r0, s0)"
    by (cases "existing_item lib e repo item acc s")
  from existing_item_trace [OF it] obtain B0 where
    b0: "trace s0 = trace s @ B0" "kind_of ` set B0 \<subseteq> {KListing, KLookup}" by blast
  show ?case
  proof (cases r0)
    case (Inl x)
    with Cons.prems it have "s1 = s0" by simp
    with b0 show ?thesis by blast
  next
    case (Inr acc')
    with Cons.prems it have "existing_loop lib e repo items acc' s0 = (r, s1)" by simp
    from Cons.IH [OF this] obtain B1 where
      "trace s1 = trace s0 @ B1" "kind_of ` set B1 \<subseteq> {KListing, KLookup}" by blast
    with b0 show ?thesis by (intro exI [of _ "B0 @ B1"]) auto
  qed
qed

lemma GetExistingFiles_trace:
  assumes "GetExistingFiles lib e repo s = (r, s1)"
  shows "\<exists>g B. trace s1 = trace s @ Requested (GetContents repo (JStr [])) g # B \<and>
               kind_of ` set B \<subseteq> {KListing, KLookup}"
proof -
  obtain g s0 where rq: "request e (GetContents repo (JStr [])) s = (g, s0)"
    by (cases "request e (GetContents repo (JStr [])) s")
  from request_trace [OF rq]
  have t0: "trace s0 = trace s @ [Requested (GetContents repo (JStr [])) g]" .
  have "s1 = s0 \<or> (\<exists>items. existing_loop lib e repo items [] s0 = (r, s1))"
    using assms rq
    by (auto simp: GetExistingFiles_def
             split: http_result.splits if_splits option.splits sum.splits)
  then show ?thesis
  proof
    assume "s1 = s0" with t0 show ?thesis by auto
  next
    assume "\<exists>items. existing_loop lib e repo items [] s0 = (r, s1)"
    then obtain items where "existing_loop lib e repo items [] s0 = (r, s1)" by blast
    from existing_loop_trace [OF this] t0 show ?thesis by auto
  qed
qed

lemma gather_context_other:
  "round requestData \<noteq> 2 \<Longrightarrow> gather_context lib e requestData repo s = (Inr [], s)"
  by (simp add: gather_context_def)

lemma gather_context_round2:
  "round requestData = 2 \<Longrightarrow>
   gather_context lib e requestData repo s = GetExistingFiles lib e repo s"
  by (simp add: gather_context_def)

lemma gather_context_trace:
  assumes "gather_context lib e requestData repo s = (r, s1)"
  shows "\<exists>B. trace s1 = trace s @ B \<and> kind_of ` set B \<subseteq> {KListing, KLookup}"
proof (cases "round requestData = 2")
  case False
  with assms show ?thesis by (intro exI [of _ "[]"]) (simp add: gather_context_def)
next
  case True
  with assms have g: "GetExistingFiles lib e repo s = (r, s1)" by (simp add: gather_context_def)
  from GetExistingFiles_trace [OF g] obtain g' B where
    "trace s1 = trace s @ Requested (GetContents repo (JStr [])) g' # B"
    "kind_of ` set B \<subseteq> {KListing, KLookup}" by blast
  then show ?thesis
    by (intro exI [of _ "Requested (GetContents repo (JStr [])) g' # B"]) simp
qed

lemma notify_loop_kinds:
  "\<exists>D. trace (notify_loop e url pl m a d s) = trace s @ D \<and> kind_of ` set D \<subseteq> {KNotify, KSleep}"
proof (induction e url pl m a d s rule: notify_loop.induct)
  case (1 e url pl m a d s)
  show ?case
  proof (cases "a < m")
    case False
    then have "notify_loop e url pl m a d s = s" by (subst notify_loop.simps) simp
    then show ?thesis by (intro exI [of _ "[]"]) simp
  next
    case True
    obtain r s1 where rq: "request e (PostCallback url pl) s = (r, s1)"
      by (cases "request e (PostCallback url pl) s")
    from request_trace [OF rq]
    have t1: "trace s1 = trace s @ [Requested (PostCallback url pl) r]" .
    let ?ok = "case r of Response st body \<Rightarrow> st = 200 | ConnectionError \<Rightarrow> False"
    show ?thesis
    proof (cases ?ok)
      case ok: True
      with True rq have "notify_loop e url pl m a d s = s1" by (subst notify_loop.simps) simp
      with t1 show ?thesis by (intro exI [of _ "[Requested (PostCallback url pl) r]"]) simp
    next
      case nok: False
      show ?thesis
      proof (cases "a < m - 1")
        case more: True
        from True rq nok more
        have eq: "notify_loop e url pl m a d s =
                  notify_loop e url pl m (a + 1) (d * 2) (time_sleep e d s1)"
          by (subst notify_loop.simps) simp
        from "1.IH"(1) [OF True rq [symmetric] nok more] obtain D where
          "trace (notify_loop e url pl m (a + 1) (d * 2) (time_sleep e d s1)) =
             trace (time_sleep e d s1) @ D" "kind_of ` set D \<subseteq> {KNotify, KSleep}" by blast
        with t1 eq show ?thesis
          by (intro exI [of _ "[Requested (PostCallback url pl) r, Slept d] @ D"])
             (simp add: time_sleep_def)
      next
        case last: False
        from True rq nok last
        have eq: "notify_loop e url pl m a d s = notify_loop e url pl m (a + 1) d s1"
          by (subst notify_loop.simps) simp
        from "1.IH"(2) [OF True rq [symmetric] nok last] obtain D where
          "trace (notify_loop e url pl m (a + 1) d s1) = trace s1 @ D"
          "kind_of ` set D \<subseteq> {KNotify, KSleep}" by blast
        with t1 eq show ?thesis
          by (intro exI [of _ "[Requested (PostCallback url pl) r] @ D"]) simp
      qed
    qed
  qed
qed

lemma publish_and_notify_trace:
  assumes "publish_and_notify e requestData repo url csha s = (res, s')"
  shows "\<exists>D. trace s' = trace s @ D \<and> kind_of ` set D \<subseteq> {KPublish, KNotify, KSleep}"
proof -
  obtain r s0 where en: "EnablePages e repo s = (r, s0)" by (cases "EnablePages e repo s")
  then have "\<exists>g pl. trace s0 = trace s @ [Requested (PostPages repo pl) g]"
    by (auto simp: EnablePages_def dest!: request_trace
             split: prod.splits http_result.splits if_splits)
  then obtain g pl where t0: "trace s0 = trace s @ [Requested (PostPages repo pl) g]" by blast
  show ?thesis
  proof (cases r)
    case (Inl x)
    with assms en have "s' = s0" by (simp add: publish_and_notify_def)
    with t0 show ?thesis by (intro exI [of _ "[Requested (PostPages repo pl) g]"]) simp
  next
    case (Inr u)
    with assms en
    have "s' = PostToEvaluationAPI e requestData url csha (GetGithubPagesURL repo) s0"
      by (simp add: publish_and_notify_def)
    with notify_loop_kinds [of e "evaluation_url requestData"
        "evaluation_payload requestData url csha (GetGithubPagesURL repo)" 5 0 1 s0]
    obtain D where "trace s' = trace s0 @ D" "kind_of ` set D \<subseteq> {KNotify, KSleep}"
      by (auto simp: PostToEvaluationAPI_def)
    with t0 show ?thesis
      by (intro exI [of _ "Requested (PostPages repo pl) g # D"]) auto
  qed
qed

lemma accepted_kind: "accepted ev \<Longrightarrow> kind_of ev = KWrite"
  by (cases ev rule: accepted.cases) auto

lemma no_accepted: "KWrite \<notin> kind_of ` set D \<Longrightarrow> filter accepted D = []"
  by (force simp: filter_empty_conv image_iff dest: accepted_kind)

lemma commit_files_empty:
  "commit_files e requestData repo url [] s = (Some NoFilesGenerated, s)"
  by (simp add: commit_files_def)

lemma commit_files_trace:
  assumes "commit_files e requestData repo url files s = (res, s')"
  shows "\<exists>C D. trace s' = trace s @ C @ D \<and>
               kind_of ` set C \<subseteq> {KLookup, KWrite} \<and>
               kind_of ` set D \<subseteq> {KPublish, KNotify, KSleep} \<and>
               (filter accepted C = [] \<longrightarrow> D = [] \<and> res \<noteq> None)"
proof (cases "files = []")
  case True
  with assms show ?thesis
    by (intro exI [of _ "[]"]) (auto simp: commit_files_def)
next
  case False
  obtain r1 s1 where pr: "PushToRepo e repo (round requestData) files s = (r1, s1)"
    by (cases "PushToRepo e repo (round requestData) files s")
  from PushToRepo_shape [OF pr] obtain C where
    c: "trace s1 = trace s @ C \<and> kind_of ` set C \<subseteq> {KLookup, KWrite} \<and>
        lookup_then_write (round requestData) C \<and>
        ((\<exists>v. r1 = Inr v) \<longrightarrow> filter accepted C \<noteq> [])" ..
  show ?thesis
  proof (cases r1)
    case (Inl x)
    with assms False pr have "res = Some x" "s' = s1" by (auto simp: commit_files_def)
    with c show ?thesis by (intro exI [of _ C] exI [of _ "[]"]) simp
  next
    case (Inr v)
    with assms False pr have "publish_and_notify e requestData repo url v s1 = (res, s')"
      by (auto simp: commit_files_def)
    from publish_and_notify_trace [OF this] obtain D where
      "trace s' = trace s1 @ D \<and> kind_of ` set D \<subseteq> {KPublish, KNotify, KSleep}" ..
    with c Inr show ?thesis by (intro exI [of _ C] exI [of _ D]) simp
  qed
qed

lemma Process_cases:
  assumes "ProcessTaskInBackground lib e requestData s = (res, s')"
  obtains
    (provision_failed) x where
      "provision e requestData (GetRepoName (task requestData) (nonce requestData)) s = (Inl x, s')"
      "res = Some x"
  | (context_failed) url s1 x where
      "provision e requestData (GetRepoName (task requestData) (nonce requestData)) s = (Inr url, s1)"
      "gather_context lib e requestData (GetRepoName (task requestData) (nonce requestData)) s1 = (Inl x, s')"
      "res = Some x"
  | (generation_failed) url s1 ex s2 x where
      "provision e requestData (GetRepoName (task requestData) (nonce requestData)) s = (Inr url, s1)"
      "gather_context lib e requestData (GetRepoName (task requestData) (nonce requestData)) s1 = (Inr ex, s2)"
      "LLMCode lib e requestData ex s2 = (Inl x, s')"
      "res = Some x"
  | (generated) url s1 ex s2 files s3 where
      "provision e requestData (GetRepoName (task requestData) (nonce requestData)) s = (Inr url, s1)"
      "gather_context lib e requestData (GetRepoName (task requestData) (nonce requestData)) s1 = (Inr ex, s2)"
      "LLMCode lib e requestData ex s2 = (Inr files, s3)"
      "commit_files e requestData (GetRepoName (task requestData) (nonce requestData)) url files s3 = (res, s')"
  using assms
  by (auto simp: ProcessTaskInBackground_def Let_def split: prod.splits sum.splits)

lemma quiet_kinds:
  "S \<subseteq> {KCreate, KListing, KLookup, KGenerate, KWrite} \<Longrightarrow> KPublish \<notin> S \<and> KNotify \<notin> S"
  by auto

text \<open>
  Claim C4. A run of \<open>ProcessTaskInBackground\<close> in which no write was accepted makes
  no publish-enable call and no evaluation-notification call, and ends with a caught
  exception.
\<close>

theorem no_publish_without_accepted_write:
  assumes "ProcessTaskInBackground lib e requestData s = (res, s')"
    and "filter accepted (new_events s s') = []"
  shows "KPublish \<notin> kind_of ` set (new_events s s') \<and>
         KNotify \<notin> kind_of ` set (new_events s s') \<and> res \<noteq> None"
  using assms(1)
proof (cases rule: Process_cases)
  case (provision_failed x)
  from provision_trace [OF provision_failed(1)] obtain A where
    a: "trace s' = trace s @ A" "kind_of ` set A \<subseteq> {KCreate}" by blast
  have new: "new_events s s' = A" by (simp add: new_events_def a)
  from a(2) have "kind_of ` set A \<subseteq> {KCreate, KListing, KLookup, KGenerate, KWrite}" by auto
  from quiet_kinds [OF this] provision_failed(2) show ?thesis unfolding new by simp
next
  case (context_failed url s1 x)
  from provision_trace [OF context_failed(1)] obtain A where
    a: "trace s1 = trace s @ A" "kind_of ` set A \<subseteq> {KCreate}" by blast
  from gather_context_trace [OF context_failed(2)] obtain B where
    b: "trace s' = trace s1 @ B" "kind_of ` set B \<subseteq> {KListing, KLookup}" by blast
  have new: "new_events s s' = A @ B" by (simp add: new_events_def a b)
  from a(2) b(2)
  have "kind_of ` set (A @ B) \<subseteq> {KCreate, KListing, KLookup, KGenerate, KWrite}" by auto
  from quiet_kinds [OF this] context_failed(3) show ?thesis unfolding new by simp
next
  case (generation_failed url s1 ex s2 x)
  from provision_trace [OF generation_failed(1)] obtain A where
    a: "trace s1 = trace s @ A" "kind_of ` set A \<subseteq> {KCreate}" by blast
  from gather_context_trace [OF generation_failed(2)] obtain B where
    b: "trace s2 = trace s1 @ B" "kind_of ` set B \<subseteq> {KListing, KLookup}" by blast
  from LLMCode_kinds [OF generation_failed(3)] obtain G where
    g: "trace s' = trace s2 @ G" "kind_of ` set G \<subseteq> {KGenerate}" by blast
  have new: "new_events s s' = A @ B @ G"
    by (simp add: new_events_def a b g)
  from a(2) b(2) g(2)
  have "kind_of ` set (A @ B @ G) \<subseteq> {KCreate, KListing, KLookup, KGenerate, KWrite}" by auto
  from quiet_kinds [OF this] generation_failed(4) show ?thesis unfolding new by simp
next
  case (generated url s1 ex s2 files s3)
  from provision_trace [OF generated(1)] obtain A where
    a: "trace s1 = trace s @ A" "kind_of ` set A \<subseteq> {KCreate}" by blast
  from gather_context_trace [OF generated(2)] obtain B where
    b: "trace s2 = trace s1 @ B" "kind_of ` set B \<subseteq> {KListing, KLookup}" by blast
  from LLMCode_kinds [OF generated(3)] obtain g where
    g: "trace s3 = trace s2 @ [Generated (fullPrompt lib requestData ex) g]" by auto
  from commit_files_trace [OF generated(4)] obtain C D where
    c: "trace s' = trace s3 @ C @ D" "kind_of ` set C \<subseteq> {KLookup, KWrite}"
       "kind_of ` set D \<subseteq> {KPublish, KNotify, KSleep}"
       "filter accepted C = [] \<longrightarrow> D = [] \<and> res \<noteq> None" by blast
  have new: "new_events s s' = A @ B @ Generated (fullPrompt lib requestData ex) g # C @ D"
    by (simp add: new_events_def a b g c)
  with assms(2) have "filter accepted C = []" by simp
  with c(4) have d: "D = []" "res \<noteq> None" by simp_all
  from a(2) b(2) c(2)
  have "kind_of ` set (A @ B @ Generated (fullPrompt lib requestData ex) g # C @ [])
          \<subseteq> {KCreate, KListing, KLookup, KGenerate, KWrite}" by auto
  from quiet_kinds [OF this] d show ?thesis unfolding new by simp
qed

text \<open>Round 1 on a platform that rejects every write with status 422: the repository is
  created, the fallback page is generated, looked up and refused, and the run stops.\<close>

theorem no_publish_without_accepted_write_witness:
  "filter accepted
     (new_events start
        (snd (ProcessTaskInBackground example_codec (example_env 422 GenRaises 1)
                (demo_request 1) start))) = [] \<and>
   map kind_of
     (new_events start
        (snd (ProcessTaskInBackground example_codec (example_env 422 GenRaises 1)
                (demo_request 1) start))) = [KCreate, KGenerate, KLookup, KWrite] \<and>
   fst (ProcessTaskInBackground example_codec (example_env 422 GenRaises 1)
          (demo_request 1) start) = Some NoFilesPushed"
proof -
  let ?run = "ProcessTaskInBackground example_codec (example_env 422 GenRaises 1)
                (demo_request 1) start"
  have run: "?run = (fst ?run, snd ?run)" by simp
  have k: "map kind_of (new_events start (snd ?run)) = [KCreate, KGenerate, KLookup, KWrite]"
    by (simp add: orchestrator_defs)
  have acc: "filter accepted (new_events start (snd ?run)) = []"
    by (simp add: orchestrator_defs)
  have res: "fst ?run = Some NoFilesPushed"
    by (simp add: orchestrator_defs)
  from no_publish_without_accepted_write [OF run acc] k acc res
  show ?thesis by simp
qed

section \<open>Facts about the round context\<close>

lemma not_generated:
  assumes "kind_of ` set X \<subseteq> K" and "KGenerate \<notin> K"
  shows "Generated p r \<notin> set X"
proof
  assume "Generated p r \<in> set X"
  then have "kind_of (Generated p r) \<in> kind_of ` set X" by (rule imageI)
  with assms show False by auto
qed

lemma generated_unique:
  assumes "Generated p r \<in> set (A @ B @ Generated p0 g # C @ D)"
    and a: "kind_of ` set A \<subseteq> {KCreate}"
    and b: "kind_of ` set B \<subseteq> {KListing, KLookup}"
    and c: "kind_of ` set C \<subseteq> {KLookup, KWrite}"
    and d: "kind_of ` set D \<subseteq> {KPublish, KNotify, KSleep}"
  shows "p = p0 \<and> r = g"
proof -
  have "Generated p r \<notin> set A" by (rule not_generated [OF a]) simp
  moreover have "Generated p r \<notin> set B" by (rule not_generated [OF b]) simp
  moreover have "Generated p r \<notin> set C" by (rule not_generated [OF c]) simp
  moreover have "Generated p r \<notin> set D" by (rule not_generated [OF d]) simp
  ultimately show ?thesis using assms(1) by simp
qed

lemma context_round2:
  assumes run: "ProcessTaskInBackground lib e requestData s = (res, s')"
    and r2: "round requestData = 2"
  shows "(\<exists>g rest. new_events s s' =
            Requested (GetContents (GetRepoName (task requestData) (nonce requestData)) (JStr [])) g # rest) \<and>
         (\<forall>p r. Generated p r \<in> set (new_events s s') \<longrightarrow>
            (\<exists>ex s1. GetExistingFiles lib e (GetRepoName (task requestData) (nonce requestData)) s
                        = (Inr ex, s1) \<and> p = fullPrompt lib requestData ex))"
proof -
  let ?repo = "GetRepoName (task requestData) (nonce requestData)"
  from r2 have pv: "provision e requestData ?repo s =
      (Inr (JStr (''https://github.com/'' @ OWNER @ ''/'' @ ?repo)), s)"
    by (simp add: provision_def)
  from run show ?thesis
  proof (cases rule: Process_cases)
    case (provision_failed x)
    with pv show ?thesis by simp
  next
    case (context_failed url s1 x)
    with pv have s1: "s1 = s" by simp
    from context_failed(2) r2 have ge: "GetExistingFiles lib e ?repo s = (Inl x, s')"
      by (simp add: gather_context_round2 s1)
    from GetExistingFiles_trace [OF ge] obtain g B where
      b: "trace s' = trace s @ Requested (GetContents ?repo (JStr [])) g # B"
         "kind_of ` set B \<subseteq> {KListing, KLookup}" by blast
    have new: "new_events s s' = Requested (GetContents ?repo (JStr [])) g # B"
      by (simp add: new_events_def b)
    have "Generated p r \<notin> set B" for p r by (rule not_generated [OF b(2)]) simp
    then show ?thesis unfolding new by simp
  next
    case (generation_failed url s1 ex s2 x)
    with pv have s1: "s1 = s" by simp
    from generation_failed(2) r2 have ge: "GetExistingFiles lib e ?repo s = (Inr ex, s2)"
      by (simp add: gather_context_round2 s1)
    from GetExistingFiles_trace [OF ge] obtain g B where
      b: "trace s2 = trace s @ Requested (GetContents ?repo (JStr [])) g # B"
         "kind_of ` set B \<subseteq> {KListing, KLookup}" by blast
    from LLMCode_kinds [OF generation_failed(3)] obtain G where
      g: "trace s' = trace s2 @ G"
         "\<forall>p r. Generated p r \<in> set G \<longrightarrow> p = fullPrompt lib requestData ex \<and>
            generate e (fullPrompt lib requestData ex) s2 = (r, s')" by blast
    have new: "new_events s s' = Requested (GetContents ?repo (JStr [])) g # B @ G"
      by (simp add: new_events_def b g)
    have "Generated p r \<notin> set B" for p r by (rule not_generated [OF b(2)]) simp
    with ge g(2) show ?thesis unfolding new by auto
  next
    case (generated url s1 ex s2 files s3)
    with pv have s1: "s1 = s" by simp
    from generated(2) r2 have ge: "GetExistingFiles lib e ?repo s = (Inr ex, s2)"
      by (simp add: gather_context_round2 s1)
    from GetExistingFiles_trace [OF ge] obtain g B where
      b: "trace s2 = trace s @ Requested (GetContents ?repo (JStr [])) g # B"
         "kind_of ` set B \<subseteq> {KListing, KLookup}" by blast
    from LLMCode_kinds [OF generated(3)] obtain g0 where
      g: "trace s3 = trace s2 @ [Generated (fullPrompt lib requestData ex) g0]" by auto
    from commit_files_trace [OF generated(4)] obtain C D where
      c: "trace s' = trace s3 @ C @ D" "kind_of ` set C \<subseteq> {KLookup, KWrite}"
         "kind_of ` set D \<subseteq> {KPublish, KNotify, KSleep}" by blast
    have new: "new_events s s' =
        Requested (GetContents ?repo (JStr [])) g # B @
        Generated (fullPrompt lib requestData ex) g0 # C @ D"
      by (simp add: new_events_def b g c)
    have "Generated p r \<notin> set B" for p r by (rule not_generated [OF b(2)]) simp
    moreover have "Generated p r \<notin> set C" for p r by (rule not_generated [OF c(2)]) simp
    moreover have "Generated p r \<notin> set D" for p r by (rule not_generated [OF c(3)]) simp
    ultimately show ?thesis using ge unfolding new by auto
  qed
qed

lemma context_other:
  assumes run: "ProcessTaskInBackground lib e requestData s = (res, s')"
    and r2: "round requestData \<noteq> 2"
  shows "KListing \<notin> kind_of ` set (new_events s s') \<and>
         (\<forall>p r. Generated p r \<in> set (new_events s s') \<longrightarrow> p = fullPrompt lib requestData [])"
proof -
  let ?repo = "GetRepoName (task requestData) (nonce requestData)"
  note gc = gather_context_other [OF r2, of lib e ?repo]
  from run show ?thesis
  proof (cases rule: Process_cases)
    case (provision_failed x)
    from provision_trace [OF provision_failed(1)] obtain A where
      a: "trace s' = trace s @ A" "kind_of ` set A \<subseteq> {KCreate}" by blast
    have new: "new_events s s' = A" by (simp add: new_events_def a)
    have "Generated p r \<notin> set A" for p r by (rule not_generated [OF a(2)]) simp
    with a(2) show ?thesis unfolding new by auto
  next
    case (context_failed url s1 x)
    with gc show ?thesis by simp
  next
    case (generation_failed url s1 ex s2 x)
    with gc have e: "ex = []" "s2 = s1" by simp_all
    from provision_trace [OF generation_failed(1)] obtain A where
      a: "trace s1 = trace s @ A" "kind_of ` set A \<subseteq> {KCreate}" by blast
    from LLMCode_kinds [OF generation_failed(3)] obtain G where
      g: "trace s' = trace s2 @ G" "kind_of ` set G \<subseteq> {KGenerate}"
         "\<forall>p r. Generated p r \<in> set G \<longrightarrow> p = fullPrompt lib requestData ex \<and>
            generate e (fullPrompt lib requestData ex) s2 = (r, s')" by blast
    have new: "new_events s s' = A @ G"
      by (simp add: new_events_def a g e)
    have "Generated p r \<notin> set A" for p r by (rule not_generated [OF a(2)]) simp
    moreover from a(2) g(2) have "kind_of ` set (A @ G) \<subseteq> {KCreate, KGenerate}" by auto
    then have "KListing \<notin> kind_of ` set (A @ G)" by auto
    ultimately show ?thesis using g(3) e unfolding new by auto
  next
    case (generated url s1 ex s2 files s3)
    with gc have e: "ex = []" "s2 = s1" by simp_all
    from provision_trace [OF generated(1)] obtain A where
      a: "trace s1 = trace s @ A" "kind_of ` set A \<subseteq> {KCreate}" by blast
    from LLMCode_kinds [OF generated(3)] obtain g0 where
      g: "trace s3 = trace s2 @ [Generated (fullPrompt lib requestData ex) g0]" by auto
    from commit_files_trace [OF generated(4)] obtain C D where
      c: "trace s' = trace s3 @ C @ D" "kind_of ` set C \<subseteq> {KLookup, KWrite}"
         "kind_of ` set D \<subseteq> {KPublish, KNotify, KSleep}" by blast
    have new: "new_events s s' = A @ Generated (fullPrompt lib requestData []) g0 # C @ D"
      by (simp add: new_events_def a g c e)
    have "Generated p r \<notin> set A" for p r by (rule not_generated [OF a(2)]) simp
    moreover have "Generated p r \<notin> set C" for p r by (rule not_generated [OF c(2)]) simp
    moreover have "Generated p r \<notin> set D" for p r by (rule not_generated [OF c(3)]) simp
    moreover from a(2) c(2,3)
    have "kind_of ` set (A @ Generated (fullPrompt lib requestData []) g0 # C @ D)
            \<subseteq> {KCreate, KGenerate, KLookup, KWrite, KPublish, KNotify, KSleep}" by auto
    then have "KListing \<notin> kind_of ` set (A @ Generated (fullPrompt lib requestData []) g0 # C @ D)"
      by auto
    ultimately show ?thesis unfolding new by auto
  qed
qed

text \<open>
  Claim C3, as stated, fails: in round 3, on a project that holds a page, the orchestrator
  makes no listing call (its calls are the generation, one lookup, one write, the
  publication and the notification) and the prompt it generates from has no context.
\<close>

theorem round3_has_no_context:
  "1 < round (demo_request 3) \<and>
   map kind_of
     (new_events demo_platform
        (snd (ProcessTaskInBackground example_codec hosting_platform (demo_request 3) demo_platform))) =
     [KGenerate, KLookup, KWrite, KPublish, KNotify] \<and>
   hd (new_events demo_platform
        (snd (ProcessTaskInBackground example_codec hosting_platform (demo_request 3) demo_platform))) =
     Generated (fullPrompt example_codec (demo_request 3) [])
       (GenText (Some (JArr [JObj [(''name'', JStr ''index.html''),
                                   (''content'', JStr ''<h1>v2</h1>'')]]))) \<and>
   p_context (fullPrompt example_codec (demo_request 3) []) = []"
  by (simp add: orchestrator_defs platform_defs)

text \<open>
  Claim C3, amended. In round 2 the first call of the orchestrator is the listing of the
  repository root by the round context builder, and the generation that follows gets the
  files \<open>GetExistingFiles\<close> returned. In every other round (round 1, and rounds above 2)
  no listing call is made and generation gets an empty context.
\<close>

theorem context_only_in_round2:
  assumes "ProcessTaskInBackground lib e requestData s = (res, s')"
  shows "(round requestData = 2 \<longrightarrow>
            (\<exists>g rest. new_events s s' =
               Requested (GetContents (GetRepoName (task requestData) (nonce requestData)) (JStr [])) g
                 # rest) \<and>
            (\<forall>p r. Generated p r \<in> set (new_events s s') \<longrightarrow>
               (\<exists>ex s1. GetExistingFiles lib e (GetRepoName (task requestData) (nonce requestData)) s
                           = (Inr ex, s1) \<and> p = fullPrompt lib requestData ex))) \<and>
         (round requestData \<noteq> 2 \<longrightarrow>
            KListing \<notin> kind_of ` set (new_events s s') \<and>
            (\<forall>p r. Generated p r \<in> set (new_events s s') \<longrightarrow> p = fullPrompt lib requestData []))"
  using context_round2 [OF assms] context_other [OF assms] by blast

text \<open>Round 2 on the platform that holds \<open>index.html\<close>: the page is listed, fetched and
  given to generation. Round 1 on the empty example platform: no listing.\<close>

theorem context_only_in_round2_witness:
  "round (demo_request 2) = 2 \<and>
   map kind_of
     (new_events demo_platform
        (snd (ProcessTaskInBackground example_codec hosting_platform (demo_request 2) demo_platform))) =
     [KListing, KLookup, KGenerate, KLookup, KWrite, KPublish, KNotify] \<and>
   fst (GetExistingFiles example_codec hosting_platform ''demo_n1'' demo_platform) =
     Inr [(JStr ''index.html'', ''<h1>v1</h1>'')] \<and>
   new_events demo_platform
        (snd (ProcessTaskInBackground example_codec hosting_platform (demo_request 2) demo_platform)) ! 2 =
     Generated (fullPrompt example_codec (demo_request 2) [(JStr ''index.html'', ''<h1>v1</h1>'')])
       (GenText (Some (JArr [JObj [(''name'', JStr ''index.html''),
                                   (''content'', JStr ''<h1>v2</h1>'')]]))) \<and>
   round (demo_request 1) \<noteq> 2 \<and>
   map kind_of
     (new_events start
        (snd (ProcessTaskInBackground example_codec (example_env 201 GenRaises 1)
                (demo_request 1) start))) =
     [KCreate, KGenerate, KLookup, KWrite, KPublish, KNotify]"
proof -
  let ?run2 = "ProcessTaskInBackground example_codec hosting_platform (demo_request 2) demo_platform"
  let ?run1 = "ProcessTaskInBackground example_codec (example_env 201 GenRaises 1)
                (demo_request 1) start"
  have r2: "round (demo_request 2) = 2" and r1: "round (demo_request 1) \<noteq> 2"
    by (simp_all add: demo_request_def)
  have run2: "?run2 = (fst ?run2, snd ?run2)" and run1: "?run1 = (fst ?run1, snd ?run1)"
    by simp_all
  have k2: "map kind_of (new_events demo_platform (snd ?run2)) =
              [KListing, KLookup, KGenerate, KLookup, KWrite, KPublish, KNotify]"
    by (simp add: orchestrator_defs platform_defs)
  have g2: "new_events demo_platform (snd ?run2) ! 2 =
     Generated (fullPrompt example_codec (demo_request 2) [(JStr ''index.html'', ''<h1>v1</h1>'')])
       (GenText (Some (JArr [JObj [(''name'', JStr ''index.html''),
                                   (''content'', JStr ''<h1>v2</h1>'')]])))"
    by (simp add: orchestrator_defs platform_defs)
  have ex: "fst (GetExistingFiles example_codec hosting_platform ''demo_n1'' demo_platform) =
              Inr [(JStr ''index.html'', ''<h1>v1</h1>'')]"
    by (simp add: orchestrator_defs platform_defs)
  have k1: "map kind_of (new_events start (snd ?run1)) =
              [KCreate, KGenerate, KLookup, KWrite, KPublish, KNotify]"
    by (simp add: orchestrator_defs)
  from context_only_in_round2 [OF run2] context_only_in_round2 [OF run1] r2 r1 k2 g2 ex k1
  show ?thesis by simp
qed


section \<open>Facts about the fallback artifact\<close>

lemma LLMCode_fallback:
  assumes "generate e (fullPrompt lib requestData ex) s0 = (r, s1)"
    and "r = GenRaises \<or> r = GenText None"
  shows "LLMCode lib e requestData ex s0 = (Inr [error_artifact lib], s1)"
  using assms by (auto simp: LLMCode_def)

lemma commit_single:
  assumes cf: "commit_files e requestData repo url [f] s = (res, s')"
    and n: "truthy (dict_get f ''name'' JNull)" and c: "truthy (dict_get f ''content'' JNull)"
  shows "\<exists>g rest. trace s' = trace s @ Requested (GetContents repo (dict_get f ''name'' JNull)) g # rest \<and>
           (answers_well (Requested (GetContents repo (dict_get f ''name'' JNull)) g) \<longrightarrow>
              (\<exists>reply rest'. rest =
                 Requested (PutContents repo (dict_get f ''name'' JNull)
                    (write_after (round requestData) (dict_get f ''name'' JNull)
                       (dict_get f ''content'' JNull) g)) reply # rest'))"
proof -
  let ?n = "dict_get f ''name'' JNull" and ?c = "dict_get f ''content'' JNull"
  obtain r0 s0 where pf: "push_file e repo (round requestData) ?n ?c (JStr []) s = (r0, s0)"
    by (cases "push_file e repo (round requestData) ?n ?c (JStr []) s")
  obtain r1 s1 where pr: "PushToRepo e repo (round requestData) [f] s = (r1, s1)"
    by (cases "PushToRepo e repo (round requestData) [f] s")
  with pf n c have s1: "s1 = s0"
    by (auto simp: PushToRepo_def Let_def split: sum.splits if_splits)
  have "\<exists>D. trace s' = trace s0 @ D"
  proof (cases r1)
    case (Inl x)
    with cf pr have "s' = s1" by (auto simp: commit_files_def)
    with s1 show ?thesis by simp
  next
    case (Inr v)
    with cf pr have "publish_and_notify e requestData repo url v s1 = (res, s')"
      by (auto simp: commit_files_def)
    from publish_and_notify_trace [OF this] s1 show ?thesis by auto
  qed
  then obtain D where d: "trace s' = trace s0 @ D" ..
  from push_file_shape [OF pf] obtain g where
    g: "(\<not> answers_well (Requested (GetContents repo ?n) g) \<and> (\<exists>x. r0 = Inl x) \<and>
               trace s0 = trace s @ [Requested (GetContents repo ?n) g]) \<or>
              (answers_well (Requested (GetContents repo ?n) g) \<and>
               (\<exists>reply. trace s0 = trace s @ [Requested (GetContents repo ?n) g,
                    Requested (PutContents repo ?n (write_after (round requestData) ?n ?c g)) reply]))"
    ..
  then show ?thesis
  proof
    assume "\<not> answers_well (Requested (GetContents repo ?n) g) \<and> (\<exists>x. r0 = Inl x) \<and>
               trace s0 = trace s @ [Requested (GetContents repo ?n) g]"
    with d show ?thesis by (intro exI [of _ g] exI [of _ D]) simp
  next
    assume "answers_well (Requested (GetContents repo ?n) g) \<and>
               (\<exists>reply. trace s0 = trace s @ [Requested (GetContents repo ?n) g,
                    Requested (PutContents repo ?n (write_after (round requestData) ?n ?c g)) reply])"
    then obtain reply where "trace s0 = trace s @ [Requested (GetContents repo ?n) g,
                    Requested (PutContents repo ?n (write_after (round requestData) ?n ?c g)) reply]"
      by blast
    with d show ?thesis
      by (intro exI [of _ g]
            exI [of _ "Requested (PutContents repo ?n (write_after (round requestData) ?n ?c g)) reply # D"])
         simp
  qed
qed

text \<open>
  Claim C2, as stated, fails for an answer that is JSON but not an array: in round 2 the
  answer \<open>{"files": []}\<close> makes \<open>LLMCode\<close> return no artifact at all, and the
  orchestrator stops with \<open>No files generated by LLM\<close> after the listing and the
  generation, without any write.
\<close>

theorem non_array_answer_aborts:
  "fst (LLMCode example_codec
          (example_env 201 (GenText (Some (JObj [(''files'', JArr [])]))) 1)
          (demo_request 2) [] start) = Inr [] \<and>
   fst (ProcessTaskInBackground example_codec
          (example_env 201 (GenText (Some (JObj [(''files'', JArr [])]))) 1)
          (demo_request 2) start) = Some NoFilesGenerated \<and>
   map kind_of
     (new_events start
        (snd (ProcessTaskInBackground example_codec
                (example_env 201 (GenText (Some (JObj [(''files'', JArr [])]))) 1)
                (demo_request 2) start))) = [KListing, KGenerate]"
  by (simp add: orchestrator_defs)

text \<open>
  Claim C2, amended. When the generation call raises or its answer is not JSON,
  \<open>LLMCode\<close> returns exactly one artifact, the page \<open>error.html\<close>, and the orchestrator
  goes on to synchronize it: right after the generation it looks \<open>error.html\<close> up and,
  unless the lookup raises, writes it with the encoded page as content. (The encoded page
  is not empty, as with base64.)
\<close>

theorem fallback_is_pushed:
  assumes run: "ProcessTaskInBackground lib e requestData s = (res, s')"
    and gen: "Generated p r \<in> set (new_events s s')"
    and bad: "r = GenRaises \<or> r = GenText None"
    and enc: "b64encode lib ''<html><body><h1>Gemini code generation failed</h1></body></html>'' \<noteq> []"
  shows "(\<forall>ex s0 s1. generate e (fullPrompt lib requestData ex) s0 = (r, s1) \<longrightarrow>
            LLMCode lib e requestData ex s0 = (Inr [error_artifact lib], s1)) \<and>
         (\<exists>pre g rest.
            new_events s s' =
              pre @ Generated p r #
              Requested (GetContents (GetRepoName (task requestData) (nonce requestData))
                           (JStr ''error.html'')) g # rest \<and>
            (answers_well (Requested (GetContents (GetRepoName (task requestData) (nonce requestData))
                                        (JStr ''error.html'')) g) \<longrightarrow>
               (\<exists>reply rest'. rest =
                  Requested (PutContents (GetRepoName (task requestData) (nonce requestData))
                     (JStr ''error.html'')
                     (write_after (round requestData) (JStr ''error.html'')
                        (JStr (b64encode lib
                           ''<html><body><h1>Gemini code generation failed</h1></body></html>'')) g))
                    reply # rest')))"
proof
  from bad show "\<forall>ex s0 s1. generate e (fullPrompt lib requestData ex) s0 = (r, s1) \<longrightarrow>
            LLMCode lib e requestData ex s0 = (Inr [error_artifact lib], s1)"
    by (auto simp: LLMCode_def)
next
  let ?repo = "GetRepoName (task requestData) (nonce requestData)"
  let ?html = "''<html><body><h1>Gemini code generation failed</h1></body></html>''"
  have nm: "dict_get (error_artifact lib) ''name'' JNull = JStr ''error.html''"
    and ct: "dict_get (error_artifact lib) ''content'' JNull = JStr (b64encode lib ?html)"
    by (simp_all add: error_artifact_def artifact_def dict_get_def)
  from run show "\<exists>pre g rest.
            new_events s s' =
              pre @ Generated p r # Requested (GetContents ?repo (JStr ''error.html'')) g # rest \<and>
            (answers_well (Requested (GetContents ?repo (JStr ''error.html'')) g) \<longrightarrow>
               (\<exists>reply rest'. rest =
                  Requested (PutContents ?repo (JStr ''error.html'')
                     (write_after (round requestData) (JStr ''error.html'')
                        (JStr (b64encode lib ?html)) g)) reply # rest'))"
  proof (cases rule: Process_cases)
    case (provision_failed x)
    from provision_trace [OF provision_failed(1)] obtain A where
      a: "trace s' = trace s @ A" "kind_of ` set A \<subseteq> {KCreate}" by blast
    have new: "new_events s s' = A" by (simp add: new_events_def a)
    have "Generated p r \<notin> set A" by (rule not_generated [OF a(2)]) simp
    with gen show ?thesis unfolding new by simp
  next
    case (context_failed url s1 x)
    from provision_trace [OF context_failed(1)] obtain A where
      a: "trace s1 = trace s @ A" "kind_of ` set A \<subseteq> {KCreate}" by blast
    from gather_context_trace [OF context_failed(2)] obtain B where
      b: "trace s' = trace s1 @ B" "kind_of ` set B \<subseteq> {KListing, KLookup}" by blast
    have new: "new_events s s' = A @ B" by (simp add: new_events_def a b)
    have "Generated p r \<notin> set A" by (rule not_generated [OF a(2)]) simp
    moreover have "Generated p r \<notin> set B" by (rule not_generated [OF b(2)]) simp
    ultimately show ?thesis using gen unfolding new by simp
  next
    case (generation_failed url s1 ex s2 x)
    from provision_trace [OF generation_failed(1)] obtain A where
      a: "trace s1 = trace s @ A" "kind_of ` set A \<subseteq> {KCreate}" by blast
    from gather_context_trace [OF generation_failed(2)] obtain B where
      b: "trace s2 = trace s1 @ B" "kind_of ` set B \<subseteq> {KListing, KLookup}" by blast
    from LLMCode_kinds [OF generation_failed(3)] obtain G where
      g: "trace s' = trace s2 @ G"
         "\<forall>p r. Generated p r \<in> set G \<longrightarrow> p = fullPrompt lib requestData ex \<and>
            generate e (fullPrompt lib requestData ex) s2 = (r, s')" by blast
    have new: "new_events s s' = A @ B @ G"
      by (simp add: new_events_def a b g)
    have "Generated p r \<notin> set A" by (rule not_generated [OF a(2)]) simp
    moreover have "Generated p r \<notin> set B" by (rule not_generated [OF b(2)]) simp
    ultimately have "Generated p r \<in> set G" using gen unfolding new by simp
    with g(2) have "generate e (fullPrompt lib requestData ex) s2 = (r, s')" by blast
    from LLMCode_fallback [OF this bad] generation_failed(3) show ?thesis by simp
  next
    case (generated url s1 ex s2 files s3)
    from provision_trace [OF generated(1)] obtain A where
      a: "trace s1 = trace s @ A" "kind_of ` set A \<subseteq> {KCreate}" by blast
    from gather_context_trace [OF generated(2)] obtain B where
      b: "trace s2 = trace s1 @ B" "kind_of ` set B \<subseteq> {KListing, KLookup}" by blast
    from generated(3) obtain r0 where
      g: "generate e (fullPrompt lib requestData ex) s2 = (r0, s3)"
         "trace s3 = trace s2 @ [Generated (fullPrompt lib requestData ex) r0]"
      by (cases rule: LLMCode_events) auto
    from commit_files_trace [OF generated(4)] obtain C D where
      c: "trace s' = trace s3 @ C @ D" "kind_of ` set C \<subseteq> {KLookup, KWrite}"
         "kind_of ` set D \<subseteq> {KPublish, KNotify, KSleep}" by blast
    have new: "new_events s s' = A @ B @ Generated (fullPrompt lib requestData ex) r0 # C @ D"
      by (simp add: new_events_def a b g c)
    from generated_unique [OF gen [unfolded new] a(2) b(2) c(2,3)]
    have pr: "p = fullPrompt lib requestData ex" "r = r0" by simp_all
    with LLMCode_fallback [OF g(1)] bad generated(3) have files: "files = [error_artifact lib]"
      by simp
    from enc have tn: "truthy (dict_get (error_artifact lib) ''name'' JNull)"
      and tc: "truthy (dict_get (error_artifact lib) ''content'' JNull)"
      by (simp_all add: nm ct)
    from commit_single [OF generated(4) [unfolded files] tn tc] obtain g0 rest where
      cs: "trace s' = trace s3 @ Requested (GetContents ?repo (JStr ''error.html'')) g0 # rest"
          "answers_well (Requested (GetContents ?repo (JStr ''error.html'')) g0) \<longrightarrow>
              (\<exists>reply rest'. rest =
                 Requested (PutContents ?repo (JStr ''error.html'')
                    (write_after (round requestData) (JStr ''error.html'')
                       (JStr (b64encode lib ?html)) g0)) reply # rest')"
      unfolding nm ct by blast
    have "new_events s s' = (A @ B) @ Generated p r #
            Requested (GetContents ?repo (JStr ''error.html'')) g0 # rest"
      by (simp add: new_events_def a b g cs(1) pr)
    with cs(2) show ?thesis by blast
  qed
qed

text \<open>Round 1 with an answer that does not parse, on a platform that accepts writes.\<close>

theorem fallback_is_pushed_witness:
  "Generated (fullPrompt example_codec (demo_request 1) []) (GenText None)
     \<in> set (new_events start
               (snd (ProcessTaskInBackground example_codec (example_env 201 (GenText None) 1)
                       (demo_request 1) start))) \<and>
   b64encode example_codec ''<html><body><h1>Gemini code generation failed</h1></body></html>'' \<noteq> [] \<and>
   map kind_of
     (new_events start
        (snd (ProcessTaskInBackground example_codec (example_env 201 (GenText None) 1)
                (demo_request 1) start))) =
     [KCreate, KGenerate, KLookup, KWrite, KPublish, KNotify] \<and>
   new_events start
        (snd (ProcessTaskInBackground example_codec (example_env 201 (GenText None) 1)
                (demo_request 1) start)) ! 3 =
     Requested (PutContents ''demo_n1'' (JStr ''error.html'')
        \<lparr>message = (1, Create, JStr ''error.html''),
         content = JStr ''b64:<html><body><h1>Gemini code generation failed</h1></body></html>'',
         sha = None\<rparr>)
       (Response 201 (Some (JObj [(''commit'', JObj [(''sha'', JStr ''c0ffee'')])])))"
proof -
  let ?run = "ProcessTaskInBackground example_codec (example_env 201 (GenText None) 1)
                (demo_request 1) start"
  have run: "?run = (fst ?run, snd ?run)" by simp
  have gen: "Generated (fullPrompt example_codec (demo_request 1) []) (GenText None)
               \<in> set (new_events start (snd ?run))"
    by (simp add: orchestrator_defs)
  have bad: "GenText None = GenRaises \<or> GenText None = GenText None" by simp
  have enc: "b64encode example_codec
               ''<html><body><h1>Gemini code generation failed</h1></body></html>'' \<noteq> []"
    by (simp add: example_codec_def)
  have k: "map kind_of (new_events start (snd ?run)) =
             [KCreate, KGenerate, KLookup, KWrite, KPublish, KNotify]"
    by (simp add: orchestrator_defs)
  have w: "new_events start (snd ?run) ! 3 =
     Requested (PutContents ''demo_n1'' (JStr ''error.html'')
        \<lparr>message = (1, Create, JStr ''error.html''),
         content = JStr ''b64:<html><body><h1>Gemini code generation failed</h1></body></html>'',
         sha = None\<rparr>)
       (Response 201 (Some (JObj [(''commit'', JObj [(''sha'', JStr ''c0ffee'')])])))"
    by (simp add: orchestrator_defs)
  from fallback_is_pushed [OF run gen bad enc] gen enc k w
  show ?thesis by simp
qed


section \<open>Facts about the round context builder\<close>




lemma dict_lookup_set_other:
  "key_norm k' \<noteq> key_norm k \<Longrightarrow> dict_lookup (dict_set d k' v) k = dict_lookup d k"
  by (induction d) auto




lemma context_of_untouched:
  "\<forall>r p g. Requested (GetContents r p) g \<in> set evs \<longrightarrow> key_norm p \<noteq> key_norm k \<Longrightarrow>
   dict_lookup (context_of lib evs acc) k = dict_lookup acc k"
proof (induction evs arbitrary: acc)
  case Nil
  show ?case by simp
next
  case (Cons ev evs)
  from Cons.prems
  have rest: "\<forall>r p g. Requested (GetContents r p) g \<in> set evs \<longrightarrow> key_norm p \<noteq> key_norm k"
    by simp
  note ih = Cons.IH [OF rest]
  show ?case
  proof (cases ev)
    case (Requested call g)
    show ?thesis
    proof (cases call)
      case (GetContents repo pth)
      with Requested Cons.prems have ne: "key_norm pth \<noteq> key_norm k" by simp
      from Requested GetContents show ?thesis
        by (simp add: ih dict_lookup_set_other [OF ne] split: option.splits)
    qed (simp_all add: Requested ih)
  qed (simp_all add: ih)
qed












end
